theory Spec2Isabelle
  imports Main
begin

section \<open>JavaScript values shared by both builder classes\<close>

text \<open>
  The source file \<^verbatim>\<open>05-objects-tasks.js\<close> holds two documents. The first
  (lines 1--234) declares \<^verbatim>\<open>class Selector\<close> and a facade \<^verbatim>\<open>cssSelectorBuilder\<close>
  over it; the second (lines 235--526) declares \<^verbatim>\<open>class CssSelectorBuilder\<close> and a
  facade of the same name over that class. Both are embedded here.

  A thrown \<^verbatim>\<open>new Error(message)\<close> is the value \<open>Inl (Error message)\<close>; a normal
  return is \<open>Inr\<close>. A method that can throw after it has already assigned to a field
  returns the state it leaves behind next to the error, since the caller can still
  reach the object.
\<close>

datatype error = Error string

definition message_duplicate_then :: string where
  "message_duplicate_then =
     ''Element, id and pseudo-element should not occur more then one time inside the selector''"

definition message_duplicate_once :: string where
  "message_duplicate_once =
     ''Element, id, and pseudo-element should not occur more than once inside the selector''"

definition message_duplicate_than :: string where
  "message_duplicate_than =
     ''Element, id and pseudo-element should not occur more than one time inside the selector''"

definition message_order :: string where
  "message_order =
     ''Selector parts should be arranged in the following order: element, id, class, attribute, pseudo-class, pseudo-element''"

text \<open>\<^verbatim>\<open>if (s)\<close> on a string: the empty string is the only falsy one.\<close>

definition truthy :: "string \<Rightarrow> bool" where
  "truthy s = (s \<noteq> [])"

text \<open>\<^verbatim>\<open>s.startsWith(p)\<close>.\<close>

fun startsWith :: "string \<Rightarrow> string \<Rightarrow> bool" where
  "startsWith s [] = True"
| "startsWith [] (p # ps) = False"
| "startsWith (c # cs) (p # ps) = (c = p \<and> startsWith cs ps)"

text \<open>
  The calls a client can chain on a builder, as data, so that statements can range over
  call sequences. \<open>rank\<close> and \<open>fragment\<close> are the specification's reading of a call:
  its position in the canonical order and its rendered text.
\<close>

datatype call =
    Element string
  | Id string
  | Class string
  | Attr string
  | PseudoClass string
  | PseudoElement string

fun rank :: "call \<Rightarrow> nat" where
  "rank (Element v) = 1"
| "rank (Id v) = 2"
| "rank (Class v) = 3"
| "rank (Attr v) = 4"
| "rank (PseudoClass v) = 5"
| "rank (PseudoElement v) = 6"

fun fragment :: "call \<Rightarrow> string" where
  "fragment (Element v) = v"
| "fragment (Id v) = ''#'' @ v"
| "fragment (Class v) = ''.'' @ v"
| "fragment (Attr v) = ''['' @ v @ '']''"
| "fragment (PseudoClass v) = '':'' @ v"
| "fragment (PseudoElement v) = ''::'' @ v"

definition of_rank :: "nat \<Rightarrow> call list \<Rightarrow> call list" where
  "of_rank r cs = filter (\<lambda>c. rank c = r) cs"

definition last_fragment :: "call list \<Rightarrow> string" where
  "last_fragment cs = (if cs = [] then [] else fragment (last cs))"


section \<open>First document: class Selector (lines 118--196)\<close>

record Selector =
  elementValue :: string
  idValue :: string
  classValues :: "string list"
  attrValue :: string
  pseudoClassValues :: "string list"
  pseudoElementValue :: string
  order :: nat

text \<open>The constructor.\<close>

definition Selector_new :: Selector where
  "Selector_new =
     \<lparr>elementValue = [], idValue = [], classValues = [], attrValue = [],
      pseudoClassValues = [], pseudoElementValue = [], order = 0\<rparr>"

definition Selector_validateOrder :: "nat \<Rightarrow> Selector \<Rightarrow> (error + unit) \<times> Selector" where
  "Selector_validateOrder ord s =
     (if order s \<le> ord then (Inr (), s\<lparr>order := ord\<rparr>)
      else (Inl (Error message_order), s))"

definition Selector_element :: "string \<Rightarrow> Selector \<Rightarrow> (error + unit) \<times> Selector" where
  "Selector_element value s =
     (if truthy (elementValue s) then (Inl (Error message_duplicate_then), s)
      else Selector_validateOrder 1 (s\<lparr>elementValue := value\<rparr>))"

definition Selector_id :: "string \<Rightarrow> Selector \<Rightarrow> (error + unit) \<times> Selector" where
  "Selector_id value s =
     (if truthy (idValue s) then (Inl (Error message_duplicate_then), s)
      else Selector_validateOrder 2 (s\<lparr>idValue := ''#'' @ value\<rparr>))"

definition Selector_class :: "string \<Rightarrow> Selector \<Rightarrow> (error + unit) \<times> Selector" where
  "Selector_class value s =
     Selector_validateOrder 3 (s\<lparr>classValues := classValues s @ [''.'' @ value]\<rparr>)"

definition Selector_attr :: "string \<Rightarrow> Selector \<Rightarrow> (error + unit) \<times> Selector" where
  "Selector_attr value s =
     Selector_validateOrder 4 (s\<lparr>attrValue := ''['' @ value @ '']''\<rparr>)"

definition Selector_pseudoClass :: "string \<Rightarrow> Selector \<Rightarrow> (error + unit) \<times> Selector" where
  "Selector_pseudoClass value s =
     Selector_validateOrder 5 (s\<lparr>pseudoClassValues := pseudoClassValues s @ ['':'' @ value]\<rparr>)"

definition Selector_pseudoElement :: "string \<Rightarrow> Selector \<Rightarrow> (error + unit) \<times> Selector" where
  "Selector_pseudoElement value s =
     (if truthy (pseudoElementValue s) then (Inl (Error message_duplicate_once), s)
      else Selector_validateOrder 6 (s\<lparr>pseudoElementValue := ''::'' @ value\<rparr>))"

text \<open>
  \<^verbatim>\<open>stringify\<close> only reads the fields, so the state it returns is the one it was given;
  \<^verbatim>\<open>join('')\<close> is \<open>concat\<close>.
\<close>

definition Selector_stringify :: "Selector \<Rightarrow> string \<times> Selector" where
  "Selector_stringify s =
     (elementValue s @ idValue s @ concat (classValues s) @ attrValue s
        @ concat (pseudoClassValues s) @ pseudoElementValue s,
      s)"

fun Selector_call :: "call \<Rightarrow> Selector \<Rightarrow> (error + unit) \<times> Selector" where
  "Selector_call (Element v) s = Selector_element v s"
| "Selector_call (Id v) s = Selector_id v s"
| "Selector_call (Class v) s = Selector_class v s"
| "Selector_call (Attr v) s = Selector_attr v s"
| "Selector_call (PseudoClass v) s = Selector_pseudoClass v s"
| "Selector_call (PseudoElement v) s = Selector_pseudoElement v s"

text \<open>A method chain \<^verbatim>\<open>b.m1(..).m2(..)...\<close>: the first throw ends it.\<close>

fun Selector_chain :: "call list \<Rightarrow> Selector \<Rightarrow> (error + unit) \<times> Selector" where
  "Selector_chain [] s = (Inr (), s)"
| "Selector_chain (c # cs) s =
     (case Selector_call c s of
        (Inl e, s') \<Rightarrow> (Inl e, s')
      | (Inr u, s') \<Rightarrow> Selector_chain cs s')"

text \<open>A client that catches every throw and goes on calling the same builder.\<close>

fun Selector_attempts :: "call list \<Rightarrow> Selector \<Rightarrow> Selector" where
  "Selector_attempts [] s = s"
| "Selector_attempts (c # cs) s = Selector_attempts cs (snd (Selector_call c s))"


section \<open>Builder objects in a store\<close>

text \<open>
  Builders are objects: \<^verbatim>\<open>combine\<close> receives two of them by reference and the facade
  allocates a new one on every call. The store is the list of all objects allocated so
  far, an address is an index into it, and \<^verbatim>\<open>new\<close> appends. A method that touches only
  its receiver is written as a function on the receiver's state and run at an address
  by \<open>invoke\<close>, which also supplies the \<^verbatim>\<open>return this\<close>.
\<close>

type_synonym addr = nat

definition invoke ::
  "('s \<Rightarrow> (error + unit) \<times> 's) \<Rightarrow> addr \<Rightarrow> 's list \<Rightarrow> (error + addr) \<times> 's list" where
  "invoke m this h =
     (case m (h ! this) of
        (Inl e, s') \<Rightarrow> (Inl e, h[this := s'])
      | (Inr u, s') \<Rightarrow> (Inr this, h[this := s']))"

text \<open>
  An address, or a thrown error, seen from a store that has \<open>n\<close> more objects in front.
\<close>

definition relocate :: "nat \<Rightarrow> error + addr \<Rightarrow> error + addr" where
  "relocate n r = (case r of Inl e \<Rightarrow> Inl e | Inr a \<Rightarrow> Inr (n + a))"

text \<open>
  A client's selector expression: a facade call followed by chained method calls, or
  the facade's \<^verbatim>\<open>combine\<close> of two such expressions followed by chained calls.
\<close>

datatype expr =
    Start call "call list"
  | Combine expr string expr "call list"

text \<open>\<^verbatim>\<open>stringify\<close> on the object at an address.\<close>

definition Selector_stringify_at :: "addr \<Rightarrow> Selector list \<Rightarrow> string \<times> Selector list" where
  "Selector_stringify_at a h =
     (case Selector_stringify (h ! a) of (res, s') \<Rightarrow> (res, h[a := s']))"

text \<open>
  \<^verbatim>\<open>Selector.combine\<close> (lines 182--185): the two operands are stringified left to
  right and the joined text is assigned to the receiver's \<^verbatim>\<open>elementValue\<close>.
\<close>

definition Selector_combine ::
  "addr \<Rightarrow> string \<Rightarrow> addr \<Rightarrow> addr \<Rightarrow> Selector list \<Rightarrow> (error + addr) \<times> Selector list" where
  "Selector_combine selector1 combinator selector2 this h =
     (case Selector_stringify_at selector1 h of
        (s1, h1) \<Rightarrow>
          (case Selector_stringify_at selector2 h1 of
             (s2, h2) \<Rightarrow>
               (Inr this,
                h2[this := (h2 ! this)\<lparr>elementValue :=
                    s1 @ '' '' @ combinator @ '' '' @ s2\<rparr>])))"

text \<open>The facade \<^verbatim>\<open>cssSelectorBuilder\<close> of the first document (lines 198--227).\<close>

definition cssSelectorBuilder_element :: "string \<Rightarrow> Selector list \<Rightarrow> (error + addr) \<times> Selector list" where
  "cssSelectorBuilder_element value h = invoke (Selector_element value) (length h) (h @ [Selector_new])"

definition cssSelectorBuilder_id :: "string \<Rightarrow> Selector list \<Rightarrow> (error + addr) \<times> Selector list" where
  "cssSelectorBuilder_id value h = invoke (Selector_id value) (length h) (h @ [Selector_new])"

definition cssSelectorBuilder_class :: "string \<Rightarrow> Selector list \<Rightarrow> (error + addr) \<times> Selector list" where
  "cssSelectorBuilder_class value h = invoke (Selector_class value) (length h) (h @ [Selector_new])"

definition cssSelectorBuilder_attr :: "string \<Rightarrow> Selector list \<Rightarrow> (error + addr) \<times> Selector list" where
  "cssSelectorBuilder_attr value h = invoke (Selector_attr value) (length h) (h @ [Selector_new])"

definition cssSelectorBuilder_pseudoClass :: "string \<Rightarrow> Selector list \<Rightarrow> (error + addr) \<times> Selector list" where
  "cssSelectorBuilder_pseudoClass value h =
     invoke (Selector_pseudoClass value) (length h) (h @ [Selector_new])"

definition cssSelectorBuilder_pseudoElement :: "string \<Rightarrow> Selector list \<Rightarrow> (error + addr) \<times> Selector list" where
  "cssSelectorBuilder_pseudoElement value h =
     invoke (Selector_pseudoElement value) (length h) (h @ [Selector_new])"

definition cssSelectorBuilder_combine ::
  "addr \<Rightarrow> string \<Rightarrow> addr \<Rightarrow> Selector list \<Rightarrow> (error + addr) \<times> Selector list" where
  "cssSelectorBuilder_combine selector1 combinator selector2 h =
     Selector_combine selector1 combinator selector2 (length h) (h @ [Selector_new])"

fun cssSelectorBuilder_call :: "call \<Rightarrow> Selector list \<Rightarrow> (error + addr) \<times> Selector list" where
  "cssSelectorBuilder_call (Element v) h = cssSelectorBuilder_element v h"
| "cssSelectorBuilder_call (Id v) h = cssSelectorBuilder_id v h"
| "cssSelectorBuilder_call (Class v) h = cssSelectorBuilder_class v h"
| "cssSelectorBuilder_call (Attr v) h = cssSelectorBuilder_attr v h"
| "cssSelectorBuilder_call (PseudoClass v) h = cssSelectorBuilder_pseudoClass v h"
| "cssSelectorBuilder_call (PseudoElement v) h = cssSelectorBuilder_pseudoElement v h"

text \<open>
  Evaluating an expression: arguments left to right, then the call; a throw anywhere
  ends the evaluation.
\<close>

fun Selector_eval :: "expr \<Rightarrow> Selector list \<Rightarrow> (error + addr) \<times> Selector list" where
  "Selector_eval (Start c cs) h =
     (case cssSelectorBuilder_call c h of
        (Inl e, h1) \<Rightarrow> (Inl e, h1)
      | (Inr a, h1) \<Rightarrow> invoke (Selector_chain cs) a h1)"
| "Selector_eval (Combine e1 combinator e2 cs) h =
     (case Selector_eval e1 h of
        (Inl e, h1) \<Rightarrow> (Inl e, h1)
      | (Inr a1, h1) \<Rightarrow>
          (case Selector_eval e2 h1 of
             (Inl e, h2) \<Rightarrow> (Inl e, h2)
           | (Inr a2, h2) \<Rightarrow>
               (case cssSelectorBuilder_combine a1 combinator a2 h2 of
                  (Inl e, h3) \<Rightarrow> (Inl e, h3)
                | (Inr a, h3) \<Rightarrow> invoke (Selector_chain cs) a h3)))"

text \<open>\<^verbatim>\<open>expression.stringify()\<close> from the empty store.\<close>

definition Selector_render :: "expr \<Rightarrow> error + string" where
  "Selector_render e =
     (case Selector_eval e [] of
        (Inl err, h) \<Rightarrow> Inl err
      | (Inr a, h) \<Rightarrow> Inr (fst (Selector_stringify_at a h)))"


section \<open>Second document: class CssSelectorBuilder (lines 403--488)\<close>

text \<open>
  The constructor sets only \<^verbatim>\<open>selectors\<close>; the three counters are never initialised
  (their initialisation is commented out), so \<^verbatim>\<open>this.elementCount += 1\<close> computes
  \<^verbatim>\<open>undefined + 1\<close>, which is \<^verbatim>\<open>NaN\<close>, and \<^verbatim>\<open>NaN + 1\<close> is \<^verbatim>\<open>NaN\<close> again. No method
  reads the counters.
\<close>

datatype counter = Undefined | NaN

definition plus_one :: "counter \<Rightarrow> counter" where
  "plus_one c = (case c of Undefined \<Rightarrow> NaN | NaN \<Rightarrow> NaN)"

record CssSelectorBuilder =
  selectors :: "string list"
  elementCount :: counter
  idCount :: counter
  pseudoElementCount :: counter

definition CssSelectorBuilder_new :: CssSelectorBuilder where
  "CssSelectorBuilder_new =
     \<lparr>selectors = [], elementCount = Undefined, idCount = Undefined,
      pseudoElementCount = Undefined\<rparr>"

text \<open>
  The \<^verbatim>\<open>forEach\<close> of \<^verbatim>\<open>validateOrder\<close>: the running triple is
  (\<^verbatim>\<open>elementCount\<close>, \<^verbatim>\<open>idCount\<close>, \<^verbatim>\<open>pseudoElementCount\<close>), the local variables.
\<close>

fun countSelectors :: "string list \<Rightarrow> nat \<times> nat \<times> nat \<Rightarrow> nat \<times> nat \<times> nat" where
  "countSelectors [] (e, i, p) = (e, i, p)"
| "countSelectors (selector # rest) (e, i, p) =
     (if startsWith selector ''#'' then countSelectors rest (e, i + 1, p)
      else if startsWith selector ''::'' then countSelectors rest (e, i, p + 1)
      else countSelectors rest (e + 1, i, p))"

text \<open>
  \<^verbatim>\<open>this.selectors[this.selectors.length - 1]\<close> is \<^verbatim>\<open>undefined\<close> on the empty array,
  modelled by \<open>None\<close>; \<^verbatim>\<open>lastSelector && lastSelector.startsWith(p)\<close> is false for
  \<^verbatim>\<open>undefined\<close> and for the empty string.
\<close>

definition lastSelector :: "string list \<Rightarrow> string option" where
  "lastSelector sels = (if sels = [] then None else Some (last sels))"

definition andStartsWith :: "string option \<Rightarrow> string \<Rightarrow> bool" where
  "andStartsWith l p = (case l of None \<Rightarrow> False | Some s \<Rightarrow> truthy s \<and> startsWith s p)"

definition CssSelectorBuilder_validateOrder :: "nat \<Rightarrow> CssSelectorBuilder \<Rightarrow> error + unit" where
  "CssSelectorBuilder_validateOrder prio s =
     (case countSelectors (selectors s) (0, 0, 0) of
        (e, i, p) \<Rightarrow>
          if 1 < e \<or> 1 < i \<or> 1 < p then Inl (Error message_duplicate_than)
          else if (andStartsWith (lastSelector (selectors s)) ''#'' \<and> prio \<noteq> 2)
                \<or> (andStartsWith (lastSelector (selectors s)) ''::'' \<and> prio \<noteq> 6)
          then Inl (Error message_order)
          else Inr ())"

definition CssSelectorBuilder_element ::
  "string \<Rightarrow> CssSelectorBuilder \<Rightarrow> (error + unit) \<times> CssSelectorBuilder" where
  "CssSelectorBuilder_element value s =
     (case CssSelectorBuilder_validateOrder 1 s of
        Inl e \<Rightarrow> (Inl e, s)
      | Inr u \<Rightarrow>
          (Inr (), s\<lparr>elementCount := plus_one (elementCount s),
                      selectors := selectors s @ [value]\<rparr>))"

definition CssSelectorBuilder_id ::
  "string \<Rightarrow> CssSelectorBuilder \<Rightarrow> (error + unit) \<times> CssSelectorBuilder" where
  "CssSelectorBuilder_id value s =
     (case CssSelectorBuilder_validateOrder 2 s of
        Inl e \<Rightarrow> (Inl e, s)
      | Inr u \<Rightarrow>
          (Inr (), s\<lparr>idCount := plus_one (idCount s),
                      selectors := selectors s @ [''#'' @ value]\<rparr>))"

definition CssSelectorBuilder_class ::
  "string \<Rightarrow> CssSelectorBuilder \<Rightarrow> (error + unit) \<times> CssSelectorBuilder" where
  "CssSelectorBuilder_class value s =
     (case CssSelectorBuilder_validateOrder 3 s of
        Inl e \<Rightarrow> (Inl e, s)
      | Inr u \<Rightarrow> (Inr (), s\<lparr>selectors := selectors s @ [''.'' @ value]\<rparr>))"

definition CssSelectorBuilder_attr ::
  "string \<Rightarrow> CssSelectorBuilder \<Rightarrow> (error + unit) \<times> CssSelectorBuilder" where
  "CssSelectorBuilder_attr value s =
     (case CssSelectorBuilder_validateOrder 4 s of
        Inl e \<Rightarrow> (Inl e, s)
      | Inr u \<Rightarrow> (Inr (), s\<lparr>selectors := selectors s @ [''['' @ value @ '']'']\<rparr>))"

definition CssSelectorBuilder_pseudoClass ::
  "string \<Rightarrow> CssSelectorBuilder \<Rightarrow> (error + unit) \<times> CssSelectorBuilder" where
  "CssSelectorBuilder_pseudoClass value s =
     (case CssSelectorBuilder_validateOrder 5 s of
        Inl e \<Rightarrow> (Inl e, s)
      | Inr u \<Rightarrow> (Inr (), s\<lparr>selectors := selectors s @ ['':'' @ value]\<rparr>))"

definition CssSelectorBuilder_pseudoElement ::
  "string \<Rightarrow> CssSelectorBuilder \<Rightarrow> (error + unit) \<times> CssSelectorBuilder" where
  "CssSelectorBuilder_pseudoElement value s =
     (case CssSelectorBuilder_validateOrder 6 s of
        Inl e \<Rightarrow> (Inl e, s)
      | Inr u \<Rightarrow>
          (Inr (), s\<lparr>pseudoElementCount := plus_one (pseudoElementCount s),
                      selectors := selectors s @ [''::'' @ value]\<rparr>))"

text \<open>\<^verbatim>\<open>stringify\<close> returns the joined array and replaces it by a new empty one.\<close>

definition CssSelectorBuilder_stringify :: "CssSelectorBuilder \<Rightarrow> string \<times> CssSelectorBuilder" where
  "CssSelectorBuilder_stringify s = (concat (selectors s), s\<lparr>selectors := []\<rparr>)"

fun CssSelectorBuilder_call ::
  "call \<Rightarrow> CssSelectorBuilder \<Rightarrow> (error + unit) \<times> CssSelectorBuilder" where
  "CssSelectorBuilder_call (Element v) s = CssSelectorBuilder_element v s"
| "CssSelectorBuilder_call (Id v) s = CssSelectorBuilder_id v s"
| "CssSelectorBuilder_call (Class v) s = CssSelectorBuilder_class v s"
| "CssSelectorBuilder_call (Attr v) s = CssSelectorBuilder_attr v s"
| "CssSelectorBuilder_call (PseudoClass v) s = CssSelectorBuilder_pseudoClass v s"
| "CssSelectorBuilder_call (PseudoElement v) s = CssSelectorBuilder_pseudoElement v s"

fun CssSelectorBuilder_chain ::
  "call list \<Rightarrow> CssSelectorBuilder \<Rightarrow> (error + unit) \<times> CssSelectorBuilder" where
  "CssSelectorBuilder_chain [] s = (Inr (), s)"
| "CssSelectorBuilder_chain (c # cs) s =
     (case CssSelectorBuilder_call c s of
        (Inl e, s') \<Rightarrow> (Inl e, s')
      | (Inr u, s') \<Rightarrow> CssSelectorBuilder_chain cs s')"

text \<open>\<^verbatim>\<open>stringify\<close> on the object at an address.\<close>

definition CssSelectorBuilder_stringify_at ::
  "addr \<Rightarrow> CssSelectorBuilder list \<Rightarrow> string \<times> CssSelectorBuilder list" where
  "CssSelectorBuilder_stringify_at a h =
     (case CssSelectorBuilder_stringify (h ! a) of (res, s') \<Rightarrow> (res, h[a := s']))"

text \<open>
  \<^verbatim>\<open>CssSelectorBuilder.combine\<close> (lines 450--453). In
  \<^verbatim>\<open>this.selectors.push(`${selector1.stringify()} ${combinator} ${selector2.stringify()}`)\<close>
  the array \<^verbatim>\<open>this.selectors\<close> is read before the argument is evaluated, and
  \<^verbatim>\<open>stringify\<close> gives its receiver a new array. When the receiver is itself one of the
  two operands, the push therefore lands on the array the receiver has just dropped and
  the receiver keeps the new empty one. The facade never produces this aliasing: its
  receiver is newly allocated.
\<close>

definition CssSelectorBuilder_combine ::
  "addr \<Rightarrow> string \<Rightarrow> addr \<Rightarrow> addr \<Rightarrow> CssSelectorBuilder list
     \<Rightarrow> (error + addr) \<times> CssSelectorBuilder list" where
  "CssSelectorBuilder_combine selector1 combinator selector2 this h =
     (case CssSelectorBuilder_stringify_at selector1 h of
        (s1, h1) \<Rightarrow>
          (case CssSelectorBuilder_stringify_at selector2 h1 of
             (s2, h2) \<Rightarrow>
               if this = selector1 \<or> this = selector2 then (Inr this, h2)
               else (Inr this,
                     h2[this := (h2 ! this)\<lparr>selectors :=
                         selectors (h2 ! this) @ [s1 @ '' '' @ combinator @ '' '' @ s2]\<rparr>])))"

text \<open>The facade \<^verbatim>\<open>cssSelectorBuilder\<close> of the second document (lines 490--518).\<close>

definition cssSelectorBuilder2_element ::
  "string \<Rightarrow> CssSelectorBuilder list \<Rightarrow> (error + addr) \<times> CssSelectorBuilder list" where
  "cssSelectorBuilder2_element value h =
     invoke (CssSelectorBuilder_element value) (length h) (h @ [CssSelectorBuilder_new])"

definition cssSelectorBuilder2_id ::
  "string \<Rightarrow> CssSelectorBuilder list \<Rightarrow> (error + addr) \<times> CssSelectorBuilder list" where
  "cssSelectorBuilder2_id value h =
     invoke (CssSelectorBuilder_id value) (length h) (h @ [CssSelectorBuilder_new])"

definition cssSelectorBuilder2_class ::
  "string \<Rightarrow> CssSelectorBuilder list \<Rightarrow> (error + addr) \<times> CssSelectorBuilder list" where
  "cssSelectorBuilder2_class value h =
     invoke (CssSelectorBuilder_class value) (length h) (h @ [CssSelectorBuilder_new])"

definition cssSelectorBuilder2_attr ::
  "string \<Rightarrow> CssSelectorBuilder list \<Rightarrow> (error + addr) \<times> CssSelectorBuilder list" where
  "cssSelectorBuilder2_attr value h =
     invoke (CssSelectorBuilder_attr value) (length h) (h @ [CssSelectorBuilder_new])"

definition cssSelectorBuilder2_pseudoClass ::
  "string \<Rightarrow> CssSelectorBuilder list \<Rightarrow> (error + addr) \<times> CssSelectorBuilder list" where
  "cssSelectorBuilder2_pseudoClass value h =
     invoke (CssSelectorBuilder_pseudoClass value) (length h) (h @ [CssSelectorBuilder_new])"

definition cssSelectorBuilder2_pseudoElement ::
  "string \<Rightarrow> CssSelectorBuilder list \<Rightarrow> (error + addr) \<times> CssSelectorBuilder list" where
  "cssSelectorBuilder2_pseudoElement value h =
     invoke (CssSelectorBuilder_pseudoElement value) (length h) (h @ [CssSelectorBuilder_new])"

definition cssSelectorBuilder2_combine ::
  "addr \<Rightarrow> string \<Rightarrow> addr \<Rightarrow> CssSelectorBuilder list \<Rightarrow> (error + addr) \<times> CssSelectorBuilder list" where
  "cssSelectorBuilder2_combine selector1 combinator selector2 h =
     CssSelectorBuilder_combine selector1 combinator selector2 (length h)
       (h @ [CssSelectorBuilder_new])"

fun cssSelectorBuilder2_call ::
  "call \<Rightarrow> CssSelectorBuilder list \<Rightarrow> (error + addr) \<times> CssSelectorBuilder list" where
  "cssSelectorBuilder2_call (Element v) h = cssSelectorBuilder2_element v h"
| "cssSelectorBuilder2_call (Id v) h = cssSelectorBuilder2_id v h"
| "cssSelectorBuilder2_call (Class v) h = cssSelectorBuilder2_class v h"
| "cssSelectorBuilder2_call (Attr v) h = cssSelectorBuilder2_attr v h"
| "cssSelectorBuilder2_call (PseudoClass v) h = cssSelectorBuilder2_pseudoClass v h"
| "cssSelectorBuilder2_call (PseudoElement v) h = cssSelectorBuilder2_pseudoElement v h"

fun CssSelectorBuilder_eval ::
  "expr \<Rightarrow> CssSelectorBuilder list \<Rightarrow> (error + addr) \<times> CssSelectorBuilder list" where
  "CssSelectorBuilder_eval (Start c cs) h =
     (case cssSelectorBuilder2_call c h of
        (Inl e, h1) \<Rightarrow> (Inl e, h1)
      | (Inr a, h1) \<Rightarrow> invoke (CssSelectorBuilder_chain cs) a h1)"
| "CssSelectorBuilder_eval (Combine e1 combinator e2 cs) h =
     (case CssSelectorBuilder_eval e1 h of
        (Inl e, h1) \<Rightarrow> (Inl e, h1)
      | (Inr a1, h1) \<Rightarrow>
          (case CssSelectorBuilder_eval e2 h1 of
             (Inl e, h2) \<Rightarrow> (Inl e, h2)
           | (Inr a2, h2) \<Rightarrow>
               (case cssSelectorBuilder2_combine a1 combinator a2 h2 of
                  (Inl e, h3) \<Rightarrow> (Inl e, h3)
                | (Inr a, h3) \<Rightarrow> invoke (CssSelectorBuilder_chain cs) a h3)))"

definition CssSelectorBuilder_render :: "expr \<Rightarrow> error + string" where
  "CssSelectorBuilder_render e =
     (case CssSelectorBuilder_eval e [] of
        (Inl err, h) \<Rightarrow> Inl err
      | (Inr a, h) \<Rightarrow> Inr (fst (CssSelectorBuilder_stringify_at a h)))"


section \<open>Unfolding and auxiliary facts\<close>

lemmas Selector_defs =
  Selector_new_def Selector_validateOrder_def Selector_element_def Selector_id_def
  Selector_class_def Selector_attr_def Selector_pseudoClass_def Selector_pseudoElement_def
  Selector_stringify_def truthy_def

lemmas CssSelectorBuilder_defs =
  CssSelectorBuilder_new_def CssSelectorBuilder_validateOrder_def CssSelectorBuilder_element_def
  CssSelectorBuilder_id_def CssSelectorBuilder_class_def CssSelectorBuilder_attr_def
  CssSelectorBuilder_pseudoClass_def CssSelectorBuilder_pseudoElement_def
  CssSelectorBuilder_stringify_def lastSelector_def andStartsWith_def plus_one_def truthy_def

lemmas store_defs =
  invoke_def Selector_stringify_at_def Selector_combine_def
  cssSelectorBuilder_element_def cssSelectorBuilder_id_def cssSelectorBuilder_class_def
  cssSelectorBuilder_attr_def cssSelectorBuilder_pseudoClass_def
  cssSelectorBuilder_pseudoElement_def cssSelectorBuilder_combine_def Selector_render_def
  CssSelectorBuilder_stringify_at_def CssSelectorBuilder_combine_def
  cssSelectorBuilder2_element_def cssSelectorBuilder2_id_def cssSelectorBuilder2_class_def
  cssSelectorBuilder2_attr_def cssSelectorBuilder2_pseudoClass_def
  cssSelectorBuilder2_pseudoElement_def cssSelectorBuilder2_combine_def
  CssSelectorBuilder_render_def

lemma of_rank_Cons: "of_rank r (c # cs) = of_rank r [c] @ of_rank r cs"
  by (simp add: of_rank_def)

lemma of_rank_Nil [simp]: "of_rank r [] = []"
  by (simp add: of_rank_def)

lemma last_fragment_append:
  "last_fragment (xs @ ys) = (if ys = [] then last_fragment xs else last_fragment ys)"
  by (simp add: last_fragment_def)

lemma CssSelectorBuilder_call_selectors:
  "CssSelectorBuilder_call c s = (Inr u, s') \<Longrightarrow> selectors s' = selectors s @ [fragment c]"
  by (cases c)
    (auto simp: CssSelectorBuilder_element_def CssSelectorBuilder_id_def
      CssSelectorBuilder_class_def CssSelectorBuilder_attr_def CssSelectorBuilder_pseudoClass_def
      CssSelectorBuilder_pseudoElement_def split: sum.splits)

lemma CssSelectorBuilder_call_throw:
  "CssSelectorBuilder_call c s = (Inl e, s') \<Longrightarrow> s' = s"
  by (cases c)
    (auto simp: CssSelectorBuilder_element_def CssSelectorBuilder_id_def
      CssSelectorBuilder_class_def CssSelectorBuilder_attr_def CssSelectorBuilder_pseudoClass_def
      CssSelectorBuilder_pseudoElement_def split: sum.splits)

lemma CssSelectorBuilder_chain_selectors:
  "CssSelectorBuilder_chain cs s = (Inr u, s') \<Longrightarrow> selectors s' = selectors s @ map fragment cs"
proof (induction cs arbitrary: s)
  case Nil
  then show ?case by simp
next
  case (Cons c cs)
  obtain r s1 where c1: "CssSelectorBuilder_call c s = (r, s1)"
    by (cases "CssSelectorBuilder_call c s")
  with Cons.prems obtain v where r: "r = Inr v"
    by (cases r) auto
  from Cons.prems c1 r have "CssSelectorBuilder_chain cs s1 = (Inr u, s')"
    by simp
  from Cons.IH [OF this] CssSelectorBuilder_call_selectors [OF c1 [unfolded r]]
  show ?case by simp
qed

lemma Selector_call_fields:
  assumes "Selector_call c s = (Inr u, s')"
  shows "elementValue s' = elementValue s @ concat (map fragment (of_rank 1 [c]))"
    and "idValue s' = idValue s @ concat (map fragment (of_rank 2 [c]))"
    and "classValues s' = classValues s @ map fragment (of_rank 3 [c])"
    and "attrValue s' = (if of_rank 4 [c] = [] then attrValue s else last_fragment (of_rank 4 [c]))"
    and "pseudoClassValues s' = pseudoClassValues s @ map fragment (of_rank 5 [c])"
    and "pseudoElementValue s' = pseudoElementValue s @ concat (map fragment (of_rank 6 [c]))"
  using assms
  by (cases c; auto simp: Selector_defs of_rank_def last_fragment_def split: if_splits)+

lemma Selector_call_repeatable_fields:
  "classValues (snd (Selector_call c s)) = classValues s @ map fragment (of_rank 3 [c])"
  "attrValue (snd (Selector_call c s)) =
     (if of_rank 4 [c] = [] then attrValue s else last_fragment (of_rank 4 [c]))"
  "pseudoClassValues (snd (Selector_call c s)) = pseudoClassValues s @ map fragment (of_rank 5 [c])"
  by (cases c; simp add: Selector_defs of_rank_def last_fragment_def)+

lemma Selector_attempts_repeatable_fields:
  "classValues (Selector_attempts cs s) = classValues s @ map fragment (of_rank 3 cs)
   \<and> attrValue (Selector_attempts cs s) =
       (if of_rank 4 cs = [] then attrValue s else last_fragment (of_rank 4 cs))
   \<and> pseudoClassValues (Selector_attempts cs s) =
       pseudoClassValues s @ map fragment (of_rank 5 cs)"
proof (induction cs arbitrary: s)
  case Nil
  show ?case by simp
next
  case (Cons c cs)
  show ?case
    unfolding of_rank_Cons [of _ c cs]
    using Cons.IH [of "snd (Selector_call c s)"]
    by (simp add: Selector_call_repeatable_fields last_fragment_append)
qed

lemma Selector_chain_fields:
  assumes "Selector_chain cs s = (Inr u, s')"
  shows "elementValue s' = elementValue s @ concat (map fragment (of_rank 1 cs))
    \<and> idValue s' = idValue s @ concat (map fragment (of_rank 2 cs))
    \<and> classValues s' = classValues s @ map fragment (of_rank 3 cs)
    \<and> attrValue s' = (if of_rank 4 cs = [] then attrValue s else last_fragment (of_rank 4 cs))
    \<and> pseudoClassValues s' = pseudoClassValues s @ map fragment (of_rank 5 cs)
    \<and> pseudoElementValue s' = pseudoElementValue s @ concat (map fragment (of_rank 6 cs))"
  using assms
proof (induction cs arbitrary: s)
  case Nil
  then show ?case by simp
next
  case (Cons c cs)
  obtain r s1 where c1: "Selector_call c s = (r, s1)"
    by (cases "Selector_call c s")
  with Cons.prems obtain v where r: "r = Inr v"
    by (cases r) auto
  from Cons.prems c1 r have rest: "Selector_chain cs s1 = (Inr u, s')"
    by simp
  note step = Selector_call_fields [OF c1 [unfolded r]]
  note ih = Cons.IH [OF rest]
  show ?case
    unfolding of_rank_Cons [of _ c cs]
    using ih step by (simp add: last_fragment_append)
qed

text \<open>Methods run at an address leave every other object alone.\<close>

lemma relocate_simps [simp]:
  "relocate n (Inl e) = Inl e"
  "relocate n (Inr a) = Inr (n + a)"
  by (simp_all add: relocate_def)

lemma invoke_length: "length (snd (invoke m a h)) = length h"
  by (simp add: invoke_def split: prod.splits sum.splits)

lemma invoke_other: "b \<noteq> a \<Longrightarrow> snd (invoke m a h) ! b = h ! b"
  by (simp add: invoke_def split: prod.splits sum.splits)

lemma invoke_append:
  "invoke m (length h + a) (h @ k) =
     (relocate (length h) (fst (invoke m a k)), h @ snd (invoke m a k))"
  by (simp add: invoke_def list_update_append split: prod.splits sum.splits)

lemma invoke_new:
  "invoke m (length h) (h @ [s]) = ((case fst (m s) of Inl e \<Rightarrow> Inl e | Inr u \<Rightarrow> Inr (length h)), h @ [snd (m s)])"
  by (simp add: invoke_def split: prod.splits sum.splits)

lemma cssSelectorBuilder_call_invoke:
  "cssSelectorBuilder_call c h = invoke (Selector_call c) (length h) (h @ [Selector_new])"
  by (cases c)
    (simp_all add: invoke_def cssSelectorBuilder_element_def cssSelectorBuilder_id_def
      cssSelectorBuilder_class_def cssSelectorBuilder_attr_def cssSelectorBuilder_pseudoClass_def
      cssSelectorBuilder_pseudoElement_def)

lemma cssSelectorBuilder2_call_invoke:
  "cssSelectorBuilder2_call c h =
     invoke (CssSelectorBuilder_call c) (length h) (h @ [CssSelectorBuilder_new])"
  by (cases c)
    (simp_all add: invoke_def cssSelectorBuilder2_element_def cssSelectorBuilder2_id_def
      cssSelectorBuilder2_class_def cssSelectorBuilder2_attr_def
      cssSelectorBuilder2_pseudoClass_def cssSelectorBuilder2_pseudoElement_def)

lemma Selector_stringify_at_same: "Selector_stringify_at a h = (fst (Selector_stringify (h ! a)), h)"
  by (simp add: Selector_stringify_at_def Selector_stringify_def)

lemma cssSelectorBuilder_combine_result:
  assumes "l < length h" and "r < length h"
  shows "cssSelectorBuilder_combine l c r h =
     (Inr (length h),
      h @ [Selector_new\<lparr>elementValue :=
        fst (Selector_stringify (h ! l)) @ '' '' @ c @ '' '' @ fst (Selector_stringify (h ! r))\<rparr>])"
  using assms
  by (simp add: cssSelectorBuilder_combine_def Selector_combine_def Selector_stringify_at_same
      nth_append)

lemma CssSelectorBuilder_stringify_at_length:
  "length (snd (CssSelectorBuilder_stringify_at a h)) = length h"
  by (simp add: CssSelectorBuilder_stringify_at_def CssSelectorBuilder_stringify_def)

lemma CssSelectorBuilder_stringify_at_other:
  "b \<noteq> a \<Longrightarrow> snd (CssSelectorBuilder_stringify_at a h) ! b = h ! b"
  by (simp add: CssSelectorBuilder_stringify_at_def CssSelectorBuilder_stringify_def)

lemma CssSelectorBuilder_stringify_at_append:
  "a < length h \<Longrightarrow>
   CssSelectorBuilder_stringify_at a (h @ k) =
     (fst (CssSelectorBuilder_stringify_at a h), snd (CssSelectorBuilder_stringify_at a h) @ k)"
  by (simp add: CssSelectorBuilder_stringify_at_def CssSelectorBuilder_stringify_def
      nth_append list_update_append)

lemma cssSelectorBuilder2_combine_result:
  assumes "l < length h" and "r < length h"
  shows "cssSelectorBuilder2_combine l c r h =
     (Inr (length h),
      snd (CssSelectorBuilder_stringify_at r (snd (CssSelectorBuilder_stringify_at l h)))
      @ [CssSelectorBuilder_new\<lparr>selectors :=
           [fst (CssSelectorBuilder_stringify_at l h) @ '' '' @ c @ '' ''
            @ fst (CssSelectorBuilder_stringify_at r (snd (CssSelectorBuilder_stringify_at l h)))]\<rparr>])"
proof -
  have r': "r < length (snd (CssSelectorBuilder_stringify_at l h))"
    using assms by (simp add: CssSelectorBuilder_stringify_at_length)
  have len: "length (snd (CssSelectorBuilder_stringify_at r (snd (CssSelectorBuilder_stringify_at l h))))
      = length h"
    by (simp add: CssSelectorBuilder_stringify_at_length)
  show ?thesis
    using assms len
    by (simp add: cssSelectorBuilder2_combine_def CssSelectorBuilder_combine_def
        CssSelectorBuilder_stringify_at_append [OF assms(1)]
        CssSelectorBuilder_stringify_at_append [OF r'] CssSelectorBuilder_new_def
        nth_append list_update_append split: prod.splits)
qed

lemma cssSelectorBuilder_combine_other:
  "b < length h \<Longrightarrow> snd (cssSelectorBuilder_combine l c r h) ! b = h ! b"
  by (simp add: cssSelectorBuilder_combine_def Selector_combine_def Selector_stringify_at_same
      nth_append)

lemma cssSelectorBuilder2_combine_other:
  "b < length h \<Longrightarrow> b \<noteq> l \<Longrightarrow> b \<noteq> r \<Longrightarrow> snd (cssSelectorBuilder2_combine l c r h) ! b = h ! b"
  by (simp add: cssSelectorBuilder2_combine_def CssSelectorBuilder_combine_def
      CssSelectorBuilder_stringify_at_def CssSelectorBuilder_stringify_def nth_append
      split: prod.splits)

text \<open>
  Evaluating an expression in a store \<open>h\<close> is evaluating it in the empty store and
  putting \<open>h\<close> in front: the objects of \<open>h\<close> are neither read nor written.
\<close>

lemma cssSelectorBuilder_combine_append:
  "cssSelectorBuilder_combine (length h + l) c (length h + r) (h @ k) =
     (relocate (length h) (fst (cssSelectorBuilder_combine l c r k)),
      h @ snd (cssSelectorBuilder_combine l c r k))"
  by (simp add: cssSelectorBuilder_combine_def Selector_combine_def Selector_stringify_at_same
      nth_append list_update_append)

lemma CssSelectorBuilder_stringify_at_shift:
  "CssSelectorBuilder_stringify_at (length h + a) (h @ k) =
     (fst (CssSelectorBuilder_stringify_at a k), h @ snd (CssSelectorBuilder_stringify_at a k))"
  by (simp add: CssSelectorBuilder_stringify_at_def CssSelectorBuilder_stringify_def
      nth_append list_update_append)

lemma CssSelectorBuilder_combine_shift:
  "CssSelectorBuilder_combine (length h + l) c (length h + r) (length h + a) (h @ k) =
     (relocate (length h) (fst (CssSelectorBuilder_combine l c r a k)),
      h @ snd (CssSelectorBuilder_combine l c r a k))"
  by (simp add: CssSelectorBuilder_combine_def CssSelectorBuilder_stringify_at_shift
      nth_append list_update_append split: prod.splits)

lemma cssSelectorBuilder2_combine_append:
  "cssSelectorBuilder2_combine (length h + l) c (length h + r) (h @ k) =
     (relocate (length h) (fst (cssSelectorBuilder2_combine l c r k)),
      h @ snd (cssSelectorBuilder2_combine l c r k))"
  using CssSelectorBuilder_combine_shift [of h l c r "length k" "k @ [CssSelectorBuilder_new]"]
  by (simp add: cssSelectorBuilder2_combine_def)

lemma Selector_eval_append:
  "Selector_eval e h =
     (relocate (length h) (fst (Selector_eval e [])), h @ snd (Selector_eval e []))"
proof (induction e arbitrary: h)
  case (Start c cs)
  show ?case
    by (simp add: cssSelectorBuilder_call_invoke invoke_def nth_append list_update_append
        split: prod.splits sum.splits)
next
  case (Combine e1 c e2 cs)
  obtain r1 k1 where e1: "Selector_eval e1 [] = (r1, k1)"
    by (cases "Selector_eval e1 []")
  have e1h: "Selector_eval e1 h = (relocate (length h) r1, h @ k1)"
    using Combine.IH(1) [of h] e1 by simp
  show ?case
  proof (cases r1)
    case (Inl err)
    then show ?thesis using e1 e1h by simp
  next
    case (Inr a1)
    obtain r2 k2 where e2: "Selector_eval e2 [] = (r2, k2)"
      by (cases "Selector_eval e2 []")
    have e2k: "Selector_eval e2 k1 = (relocate (length k1) r2, k1 @ k2)"
      using Combine.IH(2) [of k1] e2 by simp
    have e2h: "Selector_eval e2 (h @ k1)
        = (relocate (length h + length k1) r2, h @ k1 @ k2)"
      using Combine.IH(2) [of "h @ k1"] e2 by simp
    show ?thesis
    proof (cases r2)
      case (Inl err)
      then show ?thesis using e1 e1h e2k e2h Inr by simp
    next
      case (Inr a2)
      obtain r3 k3 where
        c3: "cssSelectorBuilder_combine a1 c (length k1 + a2) (k1 @ k2) = (r3, k3)"
        by (cases "cssSelectorBuilder_combine a1 c (length k1 + a2) (k1 @ k2)")
      have c3h: "cssSelectorBuilder_combine (length h + a1) c (length h + length k1 + a2)
          (h @ k1 @ k2) = (relocate (length h) r3, h @ k3)"
        using cssSelectorBuilder_combine_append [of h a1 c "length k1 + a2" "k1 @ k2"] c3
        by (simp add: add.assoc)
      show ?thesis
        using e1 e1h e2k e2h \<open>r1 = Inr a1\<close> Inr c3 c3h
        by (cases r3) (simp_all add: invoke_append)
    qed
  qed
qed

lemma CssSelectorBuilder_eval_append:
  "CssSelectorBuilder_eval e h =
     (relocate (length h) (fst (CssSelectorBuilder_eval e [])),
      h @ snd (CssSelectorBuilder_eval e []))"
proof (induction e arbitrary: h)
  case (Start c cs)
  show ?case
    by (simp add: cssSelectorBuilder2_call_invoke invoke_def nth_append list_update_append
        split: prod.splits sum.splits)
next
  case (Combine e1 c e2 cs)
  obtain r1 k1 where e1: "CssSelectorBuilder_eval e1 [] = (r1, k1)"
    by (cases "CssSelectorBuilder_eval e1 []")
  have e1h: "CssSelectorBuilder_eval e1 h = (relocate (length h) r1, h @ k1)"
    using Combine.IH(1) [of h] e1 by simp
  show ?case
  proof (cases r1)
    case (Inl err)
    then show ?thesis using e1 e1h by simp
  next
    case (Inr a1)
    obtain r2 k2 where e2: "CssSelectorBuilder_eval e2 [] = (r2, k2)"
      by (cases "CssSelectorBuilder_eval e2 []")
    have e2k: "CssSelectorBuilder_eval e2 k1 = (relocate (length k1) r2, k1 @ k2)"
      using Combine.IH(2) [of k1] e2 by simp
    have e2h: "CssSelectorBuilder_eval e2 (h @ k1)
        = (relocate (length h + length k1) r2, h @ k1 @ k2)"
      using Combine.IH(2) [of "h @ k1"] e2 by simp
    show ?thesis
    proof (cases r2)
      case (Inl err)
      then show ?thesis using e1 e1h e2k e2h Inr by simp
    next
      case (Inr a2)
      obtain r3 k3 where
        c3: "cssSelectorBuilder2_combine a1 c (length k1 + a2) (k1 @ k2) = (r3, k3)"
        by (cases "cssSelectorBuilder2_combine a1 c (length k1 + a2) (k1 @ k2)")
      have c3h: "cssSelectorBuilder2_combine (length h + a1) c (length h + length k1 + a2)
          (h @ k1 @ k2) = (relocate (length h) r3, h @ k3)"
        using cssSelectorBuilder2_combine_append [of h a1 c "length k1 + a2" "k1 @ k2"] c3
        by (simp add: add.assoc)
      show ?thesis
        using e1 e1h e2k e2h \<open>r1 = Inr a1\<close> Inr c3 c3h
        by (cases r3) (simp_all add: invoke_append)
    qed
  qed
qed

text \<open>
  \<^verbatim>\<open>Selector.validateOrder\<close> keeps in \<^verbatim>\<open>order\<close> the highest rank accepted so far,
  throws on every call of lower rank and accepts a repeated \<^verbatim>\<open>class\<close>, \<^verbatim>\<open>attr\<close> or
  \<^verbatim>\<open>pseudoClass\<close> at the current rank.
\<close>

lemma Selector_lower_rank_raises:
  "rank c < order s \<Longrightarrow> \<exists>e. fst (Selector_call c s) = Inl e"
  by (cases c) (auto simp: Selector_defs)

lemma Selector_repeatable_accepted:
  "order s \<le> rank c \<Longrightarrow> rank c = 3 \<or> rank c = 4 \<or> rank c = 5 \<Longrightarrow> fst (Selector_call c s) = Inr ()"
  by (cases c) (auto simp: Selector_defs)

lemma Selector_call_order:
  "Selector_call c s = (Inr u, s') \<Longrightarrow> order s \<le> rank c \<and> order s' = rank c"
  by (cases c) (auto simp: Selector_defs split: if_splits)

lemma Selector_call_throw_order:
  "Selector_call c s = (Inl e, s') \<Longrightarrow> order s' = order s"
  by (cases c) (auto simp: Selector_defs split: if_splits)

lemma Selector_chain_order:
  "Selector_chain cs s = (Inr u, s') \<Longrightarrow> order s' = fold max (map rank cs) (order s)"
proof (induction cs arbitrary: s)
  case Nil
  then show ?case by simp
next
  case (Cons c cs)
  obtain r s1 where c1: "Selector_call c s = (r, s1)"
    by (cases "Selector_call c s")
  with Cons.prems obtain v where r: "r = Inr v"
    by (cases r) auto
  from Cons.prems c1 r have rest: "Selector_chain cs s1 = (Inr u, s')"
    by simp
  from Selector_call_order [OF c1 [unfolded r]] have "max (rank c) (order s) = order s1"
    by simp
  with Cons.IH [OF rest] show ?case by simp
qed

text \<open>
  \<^verbatim>\<open>combine\<close> called on an existing receiver. A \<^verbatim>\<open>CssSelectorBuilder\<close> that is not
  one of the operands gets the joined text appended; one that is an operand ends up
  empty. A \<^verbatim>\<open>Selector\<close> gets the joined text as its \<^verbatim>\<open>elementValue\<close>, in place of
  whatever was there.
\<close>

lemma Selector_combine_result:
  "Selector_combine l c r this h =
     (Inr this,
      h[this := (h ! this)\<lparr>elementValue :=
          fst (Selector_stringify (h ! l)) @ '' '' @ c @ '' '' @ fst (Selector_stringify (h ! r))\<rparr>])"
  by (simp add: Selector_combine_def Selector_stringify_at_same)

lemma CssSelectorBuilder_combine_result:
  assumes "this \<noteq> l" and "this \<noteq> r"
  shows "CssSelectorBuilder_combine l c r this g =
     (Inr this,
      (snd (CssSelectorBuilder_stringify_at r (snd (CssSelectorBuilder_stringify_at l g))))
        [this := (g ! this)\<lparr>selectors := selectors (g ! this)
           @ [fst (CssSelectorBuilder_stringify_at l g) @ '' '' @ c @ '' ''
              @ fst (CssSelectorBuilder_stringify_at r (snd (CssSelectorBuilder_stringify_at l g)))]\<rparr>])"
  using assms
  by (simp add: CssSelectorBuilder_combine_def CssSelectorBuilder_stringify_at_def
      CssSelectorBuilder_stringify_def split: prod.splits)

lemma CssSelectorBuilder_combine_receiver:
  assumes "this < length h" and "this \<noteq> l" and "this \<noteq> r"
  shows "selectors (snd (CssSelectorBuilder_combine l c r this h) ! this) =
     selectors (h ! this)
     @ [fst (CssSelectorBuilder_stringify_at l h) @ '' '' @ c @ '' ''
        @ fst (CssSelectorBuilder_stringify_at r (snd (CssSelectorBuilder_stringify_at l h)))]"
  using assms
  by (simp add: CssSelectorBuilder_combine_def CssSelectorBuilder_stringify_at_def
      CssSelectorBuilder_stringify_def split: prod.splits)

lemma CssSelectorBuilder_combine_receiver_operand:
  assumes "this < length h" and "this = l \<or> this = r"
  shows "selectors (snd (CssSelectorBuilder_combine l c r this h) ! this) = []"
  using assms
  by (auto simp: CssSelectorBuilder_combine_def CssSelectorBuilder_stringify_at_def
      CssSelectorBuilder_stringify_def nth_list_update split: prod.splits)

lemma Selector_combine_receiver:
  assumes "this < length h"
  shows "snd (Selector_combine l c r this h) ! this =
     (h ! this)\<lparr>elementValue :=
        fst (Selector_stringify (h ! l)) @ '' '' @ c @ '' '' @ fst (Selector_stringify (h ! r))\<rparr>"
  using assms
  by (simp add: Selector_combine_def Selector_stringify_at_same)

text \<open>A rank-ordered call list is its calls of rank 1, then those of rank 2, and so on.\<close>

lemma of_rank_empty: "\<forall>c\<in>set cs. r < rank c \<Longrightarrow> of_rank r cs = []"
  by (auto simp: of_rank_def filter_empty_conv)

lemma rank_cases: "rank c = 1 \<or> rank c = 2 \<or> rank c = 3 \<or> rank c = 4 \<or> rank c = 5 \<or> rank c = 6"
  by (cases c) simp_all

lemma sorted_by_rank:
  assumes "sorted (map rank cs)"
  shows "cs = of_rank 1 cs @ of_rank 2 cs @ of_rank 3 cs @ of_rank 4 cs @ of_rank 5 cs @ of_rank 6 cs"
  using assms
proof (induction cs)
  case Nil
  then show ?case by simp
next
  case (Cons c cs)
  then have ih: "cs = of_rank 1 cs @ of_rank 2 cs @ of_rank 3 cs @ of_rank 4 cs @ of_rank 5 cs
      @ of_rank 6 cs"
    and le: "\<forall>d\<in>set cs. rank c \<le> rank d"
    by simp_all
  have low: "\<And>r. r < rank c \<Longrightarrow> of_rank r cs = []"
    using le by (intro of_rank_empty) auto
  from rank_cases [of c] show ?case
  proof (elim disjE)
    assume r: "rank c = 1"
    show ?thesis
      by (subst (1) ih) (simp add: of_rank_Cons [of _ c cs] of_rank_def r)
  next
    assume r: "rank c = 2"
    show ?thesis
      using low [of 1]
      by (subst (1) ih) (simp add: of_rank_Cons [of _ c cs] of_rank_def r)
  next
    assume r: "rank c = 3"
    show ?thesis
      using low [of 1] low [of 2]
      by (subst (1) ih) (simp add: of_rank_Cons [of _ c cs] of_rank_def r)
  next
    assume r: "rank c = 4"
    show ?thesis
      using low [of 1] low [of 2] low [of 3]
      by (subst (1) ih) (simp add: of_rank_Cons [of _ c cs] of_rank_def r)
  next
    assume r: "rank c = 5"
    show ?thesis
      using low [of 1] low [of 2] low [of 3] low [of 4]
      by (subst (1) ih) (simp add: of_rank_Cons [of _ c cs] of_rank_def r)
  next
    assume r: "rank c = 6"
    show ?thesis
      using low [of 1] low [of 2] low [of 3] low [of 4] low [of 5]
      by (subst (1) ih) (simp add: of_rank_Cons [of _ c cs] of_rank_def r)
  qed
qed

lemma Selector_call_accepts:
  assumes "order s \<le> rank c"
    and "rank c = 1 \<longrightarrow> elementValue s = []"
    and "rank c = 2 \<longrightarrow> idValue s = []"
    and "rank c = 6 \<longrightarrow> pseudoElementValue s = []"
  shows "fst (Selector_call c s) = Inr ()"
  using assms by (cases c) (auto simp: Selector_defs)

lemma Selector_call_keeps:
  assumes "Selector_call c s = (Inr u, s')"
  shows "rank c \<noteq> 1 \<longrightarrow> elementValue s' = elementValue s"
    and "rank c \<noteq> 2 \<longrightarrow> idValue s' = idValue s"
    and "rank c \<noteq> 6 \<longrightarrow> pseudoElementValue s' = pseudoElementValue s"
    and "order s' = rank c"
  using assms by (cases c; auto simp: Selector_defs split: if_splits)+

lemma Selector_chain_accepts:
  assumes "sorted (map rank cs)"
    and "\<forall>c\<in>set cs. order s \<le> rank c"
    and "length (of_rank 1 cs) \<le> 1" and "length (of_rank 2 cs) \<le> 1"
    and "length (of_rank 6 cs) \<le> 1"
    and "of_rank 1 cs \<noteq> [] \<longrightarrow> elementValue s = []"
    and "of_rank 2 cs \<noteq> [] \<longrightarrow> idValue s = []"
    and "of_rank 6 cs \<noteq> [] \<longrightarrow> pseudoElementValue s = []"
  shows "fst (Selector_chain cs s) = Inr ()"
  using assms
proof (induction cs arbitrary: s)
  case Nil
  then show ?case by simp
next
  case (Cons c cs)
  have ok: "fst (Selector_call c s) = Inr ()"
    using Cons.prems by (intro Selector_call_accepts) (auto simp: of_rank_def)
  then obtain s1 where c1: "Selector_call c s = (Inr (), s1)"
    by (cases "Selector_call c s") auto
  note keep = Selector_call_keeps [OF c1]
  have "fst (Selector_chain cs s1) = Inr ()"
  proof (rule Cons.IH)
    show "sorted (map rank cs)" using Cons.prems(1) by simp
    show "\<forall>d\<in>set cs. order s1 \<le> rank d" using Cons.prems(1) keep(4) by simp
    show "length (of_rank 1 cs) \<le> 1" using Cons.prems(3) by (simp add: of_rank_def split: if_splits)
    show "length (of_rank 2 cs) \<le> 1" using Cons.prems(4) by (simp add: of_rank_def split: if_splits)
    show "length (of_rank 6 cs) \<le> 1" using Cons.prems(5) by (simp add: of_rank_def split: if_splits)
    show "of_rank 1 cs \<noteq> [] \<longrightarrow> elementValue s1 = []"
      using Cons.prems(3,6) keep(1) by (auto simp: of_rank_def split: if_splits)
    show "of_rank 2 cs \<noteq> [] \<longrightarrow> idValue s1 = []"
      using Cons.prems(4,7) keep(2) by (auto simp: of_rank_def split: if_splits)
    show "of_rank 6 cs \<noteq> [] \<longrightarrow> pseudoElementValue s1 = []"
      using Cons.prems(5,8) keep(3) by (auto simp: of_rank_def split: if_splits)
  qed
  with c1 show ?case by simp
qed

lemma last_fragment_single: "length cs \<le> 1 \<Longrightarrow> last_fragment cs = concat (map fragment cs)"
  by (cases cs) (auto simp: last_fragment_def)

text \<open>
  What \<^verbatim>\<open>Selector\<close> does deliver of C1: a rank-ordered chain with at most one
  \<^verbatim>\<open>element\<close>, \<^verbatim>\<open>id\<close>, \<^verbatim>\<open>attr\<close> and \<^verbatim>\<open>pseudoElement\<close> call returns normally from a new
  builder and \<^verbatim>\<open>stringify()\<close> is the concatenation of all fragments in call order.
\<close>

lemma Selector_ordered_chain_single_attr:
  assumes "sorted (map rank cs)"
    and "length (of_rank 1 cs) \<le> 1" and "length (of_rank 2 cs) \<le> 1"
    and "length (of_rank 4 cs) \<le> 1" and "length (of_rank 6 cs) \<le> 1"
  shows "fst (Selector_chain cs Selector_new) = Inr ()"
    and "fst (Selector_stringify (snd (Selector_chain cs Selector_new))) = concat (map fragment cs)"
proof -
  show ok: "fst (Selector_chain cs Selector_new) = Inr ()"
    using assms by (intro Selector_chain_accepts) (simp_all add: Selector_new_def)
  then have run: "Selector_chain cs Selector_new = (Inr (), snd (Selector_chain cs Selector_new))"
    by (cases "Selector_chain cs Selector_new") simp
  have "concat (map fragment cs) =
      concat (map fragment (of_rank 1 cs @ of_rank 2 cs @ of_rank 3 cs @ of_rank 4 cs
        @ of_rank 5 cs @ of_rank 6 cs))"
    using sorted_by_rank [OF assms(1)] by simp
  moreover have "fst (Selector_stringify (snd (Selector_chain cs Selector_new))) =
      concat (map fragment (of_rank 1 cs)) @ concat (map fragment (of_rank 2 cs))
      @ concat (map fragment (of_rank 3 cs)) @ last_fragment (of_rank 4 cs)
      @ concat (map fragment (of_rank 5 cs)) @ concat (map fragment (of_rank 6 cs))"
    using Selector_chain_fields [OF run]
    by (simp add: Selector_stringify_def Selector_new_def last_fragment_def)
  ultimately show "fst (Selector_stringify (snd (Selector_chain cs Selector_new)))
      = concat (map fragment cs)"
    using last_fragment_single [OF assms(4)] by simp
qed


text \<open>
  The first example of the file's doc comment,
  \<^verbatim>\<open>builder.id('main').class('container').class('editable').stringify()\<close>: the first
  document returns \<^verbatim>\<open>#main.container.editable\<close>; in the second the first \<^verbatim>\<open>class\<close>
  call throws, because the last fragment starts with \<^verbatim>\<open>#\<close> and the call is not \<^verbatim>\<open>id\<close>.
\<close>

lemma documented_example:
  "Selector_render (Start (Id ''main'') [Class ''container'', Class ''editable''])
     = Inr ''#main.container.editable''"
  "CssSelectorBuilder_render (Start (Id ''main'') [Class ''container'', Class ''editable''])
     = Inl (Error message_order)"
  by (simp_all add: Selector_defs CssSelectorBuilder_defs store_defs)

section \<open>The claims\<close>

text \<open>
  C1. For every rank-ordered call sequence (element, id and pseudo-element at most once)
  \<^verbatim>\<open>stringify()\<close> should return the fragments of all calls concatenated in call order,
  every \<^verbatim>\<open>attr\<close> call contributing its own bracketed fragment. \<^verbatim>\<open>Selector.attr\<close>
  assigns to the single field \<^verbatim>\<open>attrValue\<close>, so of two \<^verbatim>\<open>attr\<close> calls only the second
  is rendered: the rank-ordered chain \<^verbatim>\<open>attr('a').attr('b')\<close> returns normally and
  \<^verbatim>\<open>stringify()\<close> gives \<^verbatim>\<open>[b]\<close>, not \<^verbatim>\<open>[a][b]\<close>.
\<close>

theorem C1_second_attr_replaces_first:
  "sorted (map rank [Attr ''a'', Attr ''b''])
   \<and> fst (Selector_chain [Attr ''a'', Attr ''b''] Selector_new) = Inr ()
   \<and> fst (Selector_stringify (snd (Selector_chain [Attr ''a'', Attr ''b''] Selector_new))) = ''[b]''
   \<and> concat (map fragment [Attr ''a'', Attr ''b'']) = ''[a][b]''"
  by (simp add: Selector_defs)

text \<open>
  C2. A second \<^verbatim>\<open>element\<close>, \<^verbatim>\<open>id\<close> or \<^verbatim>\<open>pseudoElement\<close> call on the same builder should
  raise. \<^verbatim>\<open>CssSelectorBuilder.validateOrder\<close> counts the fragments already stored, before
  the new one is pushed, and throws only when a count exceeds one: on a new
  \<^verbatim>\<open>CssSelectorBuilder\<close> the second \<^verbatim>\<open>element\<close>, the second \<^verbatim>\<open>id\<close> and the second
  \<^verbatim>\<open>pseudoElement\<close> all return normally and both fragments are stored.
\<close>

theorem C2_second_call_accepted:
  "fst (CssSelectorBuilder_chain [Element ''a'', Element ''b''] CssSelectorBuilder_new) = Inr ()
   \<and> selectors (snd (CssSelectorBuilder_chain [Element ''a'', Element ''b''] CssSelectorBuilder_new))
       = [''a'', ''b'']
   \<and> fst (CssSelectorBuilder_chain [Id ''a'', Id ''b''] CssSelectorBuilder_new) = Inr ()
   \<and> selectors (snd (CssSelectorBuilder_chain [Id ''a'', Id ''b''] CssSelectorBuilder_new))
       = [''#a'', ''#b'']
   \<and> fst (CssSelectorBuilder_chain [PseudoElement ''a'', PseudoElement ''b''] CssSelectorBuilder_new)
       = Inr ()
   \<and> selectors (snd (CssSelectorBuilder_chain [PseudoElement ''a'', PseudoElement ''b'']
         CssSelectorBuilder_new)) = [''::a'', ''::b'']"
  by (simp add: CssSelectorBuilder_defs)

text \<open>
  C3. Appending a fragment of lower rank than one already appended should raise, and
  repeating \<^verbatim>\<open>class\<close>, \<^verbatim>\<open>attr\<close> or \<^verbatim>\<open>pseudoClass\<close> at the current rank should never
  raise. \<^verbatim>\<open>CssSelectorBuilder.validateOrder\<close> compares the rank only when the last
  fragment starts with \<^verbatim>\<open>#\<close> or \<^verbatim>\<open>::\<close>, and counts every other fragment as an element:
  \<^verbatim>\<open>attr('a').class('b')\<close> returns normally although class (rank 3) follows attr
  (rank 4), and after \<^verbatim>\<open>class('a').class('b')\<close> a third \<^verbatim>\<open>class\<close> call throws the
  duplicate error.
\<close>

theorem C3_order_not_enforced:
  "rank (Class ''b'') < rank (Attr ''a'')
   \<and> fst (CssSelectorBuilder_chain [Attr ''a'', Class ''b''] CssSelectorBuilder_new) = Inr ()
   \<and> selectors (snd (CssSelectorBuilder_chain [Attr ''a'', Class ''b''] CssSelectorBuilder_new))
       = [''[a]'', ''.b'']
   \<and> fst (CssSelectorBuilder_chain [Class ''a'', Class ''b''] CssSelectorBuilder_new) = Inr ()
   \<and> fst (CssSelectorBuilder_class ''c''
         (snd (CssSelectorBuilder_chain [Class ''a'', Class ''b''] CssSelectorBuilder_new)))
       = Inl (Error message_duplicate_than)"
  by (simp add: CssSelectorBuilder_defs)

text \<open>
  C4, as the claim states it: a second \<^verbatim>\<open>stringify()\<close> with no appends in between
  returns the empty string. On a \<^verbatim>\<open>Selector\<close> it does not: after \<^verbatim>\<open>element('a')\<close> the
  first and the second \<^verbatim>\<open>stringify()\<close> both return \<^verbatim>\<open>a\<close>.
\<close>

theorem C4_Selector_stringify_twice:
  "fst (Selector_chain [Element ''a''] Selector_new) = Inr ()
   \<and> fst (Selector_stringify (snd (Selector_chain [Element ''a''] Selector_new))) = ''a''
   \<and> fst (Selector_stringify (snd (Selector_stringify
         (snd (Selector_chain [Element ''a''] Selector_new))))) = ''a''
   \<and> fst (Selector_stringify (snd (Selector_stringify
         (snd (Selector_chain [Element ''a''] Selector_new))))) \<noteq> []"
  by (simp add: Selector_defs)

text \<open>
  C4, amended. On a \<^verbatim>\<open>CssSelectorBuilder\<close>, \<^verbatim>\<open>stringify()\<close> clears the fragments: after
  any chain of appends that returned normally from a new builder the first call returns
  the fragments concatenated in append order and leaves \<^verbatim>\<open>selectors\<close> empty, and in any
  state a second call right after the first returns the empty string. On a \<^verbatim>\<open>Selector\<close>,
  \<^verbatim>\<open>stringify()\<close> leaves the state as it is and a second call returns the same string as
  the first.
\<close>

theorem C4_stringify_clears_or_only_reads:
  assumes "CssSelectorBuilder_chain cs CssSelectorBuilder_new = (Inr (), s)"
  shows "fst (CssSelectorBuilder_stringify s) = concat (map fragment cs)
     \<and> selectors (snd (CssSelectorBuilder_stringify s)) = []
     \<and> fst (CssSelectorBuilder_stringify (snd (CssSelectorBuilder_stringify s))) = []
     \<and> fst (CssSelectorBuilder_stringify (snd (CssSelectorBuilder_stringify b))) = []
     \<and> snd (Selector_stringify t) = t
     \<and> fst (Selector_stringify (snd (Selector_stringify t))) = fst (Selector_stringify t)"
  using CssSelectorBuilder_chain_selectors [OF assms]
  by (simp add: CssSelectorBuilder_stringify_def Selector_stringify_def CssSelectorBuilder_new_def)

theorem C4_stringify_clears_or_only_reads_witness:
  "CssSelectorBuilder_chain [Element ''a'', Class ''b''] CssSelectorBuilder_new
     = (Inr (), \<lparr>selectors = [''a'', ''.b''], elementCount = NaN, idCount = Undefined,
          pseudoElementCount = Undefined\<rparr>)
   \<and> fst (CssSelectorBuilder_stringify \<lparr>selectors = [''a'', ''.b''], elementCount = NaN,
          idCount = Undefined, pseudoElementCount = Undefined\<rparr>) = ''a.b''
   \<and> fst (CssSelectorBuilder_stringify (snd (CssSelectorBuilder_stringify
          \<lparr>selectors = [''a'', ''.b''], elementCount = NaN, idCount = Undefined,
           pseudoElementCount = Undefined\<rparr>))) = []"
proof -
  have h: "CssSelectorBuilder_chain [Element ''a'', Class ''b''] CssSelectorBuilder_new
     = (Inr (), \<lparr>selectors = [''a'', ''.b''], elementCount = NaN, idCount = Undefined,
          pseudoElementCount = Undefined\<rparr>)"
    by (simp add: CssSelectorBuilder_defs)
  show ?thesis
    using h C4_stringify_clears_or_only_reads [OF h] by simp
qed

text \<open>
  C5, as the claim states it: \<^verbatim>\<open>combine(left, c, right)\<close> appends exactly one fragment
  to the builder it is called on. On a used \<^verbatim>\<open>Selector\<close> it does not: the receiver built
  by \<^verbatim>\<open>element('x').class('c')\<close> renders as \<^verbatim>\<open>x.c\<close>; after
  \<^verbatim>\<open>combine(element('l'), '>', id('r'))\<close> on it, it renders as \<^verbatim>\<open>l > #r.c\<close>: the joined
  text has taken the place of the element fragment \<^verbatim>\<open>x\<close> and stands before \<^verbatim>\<open>.c\<close>, where
  appending would give \<^verbatim>\<open>x.cl > #r\<close>.
\<close>

theorem C5_Selector_combine_replaces_element:
  "snd (Selector_eval (Start (Id ''r'') [])
      (snd (Selector_eval (Start (Element ''l'') [])
        (snd (Selector_eval (Start (Element ''x'') [Class ''c'']) [])))))
     = [Selector_new\<lparr>elementValue := ''x'', classValues := [''.c''], order := 3\<rparr>,
        Selector_new\<lparr>elementValue := ''l'', order := 1\<rparr>,
        Selector_new\<lparr>idValue := ''#r'', order := 2\<rparr>]
   \<and> fst (Selector_stringify_at 0
        [Selector_new\<lparr>elementValue := ''x'', classValues := [''.c''], order := 3\<rparr>,
         Selector_new\<lparr>elementValue := ''l'', order := 1\<rparr>,
         Selector_new\<lparr>idValue := ''#r'', order := 2\<rparr>]) = ''x.c''
   \<and> fst (Selector_stringify_at 0 (snd (Selector_combine 1 ''>'' 2 0
        [Selector_new\<lparr>elementValue := ''x'', classValues := [''.c''], order := 3\<rparr>,
         Selector_new\<lparr>elementValue := ''l'', order := 1\<rparr>,
         Selector_new\<lparr>idValue := ''#r'', order := 2\<rparr>]))) = ''l > #r.c''
   \<and> fst (Selector_stringify_at 0 (snd (Selector_combine 1 ''>'' 2 0
        [Selector_new\<lparr>elementValue := ''x'', classValues := [''.c''], order := 3\<rparr>,
         Selector_new\<lparr>elementValue := ''l'', order := 1\<rparr>,
         Selector_new\<lparr>idValue := ''#r'', order := 2\<rparr>]))) \<noteq> ''x.c'' @ ''l > #r''"
  by (simp add: Selector_defs store_defs)

text \<open>
  C5, amended. The joined text is \<^verbatim>\<open>left.stringify() + " " + c + " " + right.stringify()\<close>,
  the operands stringified left to right. The facade's \<^verbatim>\<open>combine(left, c, right)\<close> returns
  a new builder that holds the joined text as its only fragment: in the first document
  as \<^verbatim>\<open>elementValue\<close> of a new \<^verbatim>\<open>Selector\<close>, in the second as the single entry of
  \<^verbatim>\<open>selectors\<close> of a new \<^verbatim>\<open>CssSelectorBuilder\<close>. Called on an existing receiver,
  \<^verbatim>\<open>Selector.combine\<close> assigns the joined text to the receiver's \<^verbatim>\<open>elementValue\<close>, in
  place of the element fragment that was there, and changes nothing else;
  \<^verbatim>\<open>CssSelectorBuilder.combine\<close> on a receiver that is neither operand appends the joined
  text after the receiver's fragments. In both documents
  \<^verbatim>\<open>combine(element('div').id('main'), '+', element('span')).stringify()\<close> is
  \<^verbatim>\<open>div#main + span\<close> and the nested combine of \<^verbatim>\<open>table\<close>, \<^verbatim>\<open>~\<close>, \<^verbatim>\<open>tr\<close>, then a
  blank with \<^verbatim>\<open>td\<close> is \<^verbatim>\<open>table ~ tr   td\<close> with three blanks.
\<close>

theorem C5_combine_joins_operands:
  assumes "l < length h" and "r < length h" and "l < length g" and "r < length g"
  shows "cssSelectorBuilder_combine l c r h =
       (Inr (length h),
        h @ [Selector_new\<lparr>elementValue :=
          fst (Selector_stringify (h ! l)) @ '' '' @ c @ '' '' @ fst (Selector_stringify (h ! r))\<rparr>])
     \<and> fst (Selector_stringify_at (length h) (snd (cssSelectorBuilder_combine l c r h))) =
         fst (Selector_stringify (h ! l)) @ '' '' @ c @ '' '' @ fst (Selector_stringify (h ! r))
     \<and> cssSelectorBuilder2_combine l c r g =
       (Inr (length g),
        snd (CssSelectorBuilder_stringify_at r (snd (CssSelectorBuilder_stringify_at l g)))
        @ [CssSelectorBuilder_new\<lparr>selectors :=
             [fst (CssSelectorBuilder_stringify_at l g) @ '' '' @ c @ '' ''
              @ fst (CssSelectorBuilder_stringify_at r (snd (CssSelectorBuilder_stringify_at l g)))]\<rparr>])
     \<and> Selector_combine l c r this h =
       (Inr this,
        h[this := (h ! this)\<lparr>elementValue :=
            fst (Selector_stringify (h ! l)) @ '' '' @ c @ '' '' @ fst (Selector_stringify (h ! r))\<rparr>])
     \<and> (this \<noteq> l \<and> this \<noteq> r \<longrightarrow>
          CssSelectorBuilder_combine l c r this g =
          (Inr this,
           (snd (CssSelectorBuilder_stringify_at r (snd (CssSelectorBuilder_stringify_at l g))))
             [this := (g ! this)\<lparr>selectors := selectors (g ! this)
                @ [fst (CssSelectorBuilder_stringify_at l g) @ '' '' @ c @ '' ''
                   @ fst (CssSelectorBuilder_stringify_at r
                       (snd (CssSelectorBuilder_stringify_at l g)))]\<rparr>]))
     \<and> Selector_render
         (Combine (Start (Element ''div'') [Id ''main'']) ''+'' (Start (Element ''span'') []) [])
       = Inr ''div#main + span''
     \<and> CssSelectorBuilder_render
         (Combine (Start (Element ''div'') [Id ''main'']) ''+'' (Start (Element ''span'') []) [])
       = Inr ''div#main + span''
     \<and> Selector_render
         (Combine (Combine (Start (Element ''table'') []) ''~'' (Start (Element ''tr'') []) [])
            '' '' (Start (Element ''td'') []) [])
       = Inr ''table ~ tr   td''
     \<and> CssSelectorBuilder_render
         (Combine (Combine (Start (Element ''table'') []) ''~'' (Start (Element ''tr'') []) [])
            '' '' (Start (Element ''td'') []) [])
       = Inr ''table ~ tr   td''"
proof -
  have A: "cssSelectorBuilder_combine l c r h =
       (Inr (length h),
        h @ [Selector_new\<lparr>elementValue :=
          fst (Selector_stringify (h ! l)) @ '' '' @ c @ '' '' @ fst (Selector_stringify (h ! r))\<rparr>])"
    using assms(1,2) by (rule cssSelectorBuilder_combine_result)
  have A': "fst (Selector_stringify_at (length h) (snd (cssSelectorBuilder_combine l c r h))) =
         fst (Selector_stringify (h ! l)) @ '' '' @ c @ '' '' @ fst (Selector_stringify (h ! r))"
    unfolding A by (simp add: Selector_stringify_at_same Selector_stringify_def Selector_new_def)
  have B: "cssSelectorBuilder2_combine l c r g =
       (Inr (length g),
        snd (CssSelectorBuilder_stringify_at r (snd (CssSelectorBuilder_stringify_at l g)))
        @ [CssSelectorBuilder_new\<lparr>selectors :=
             [fst (CssSelectorBuilder_stringify_at l g) @ '' '' @ c @ '' ''
              @ fst (CssSelectorBuilder_stringify_at r (snd (CssSelectorBuilder_stringify_at l g)))]\<rparr>])"
    using assms(3,4) by (rule cssSelectorBuilder2_combine_result)
  have RA: "Selector_combine l c r this h =
       (Inr this,
        h[this := (h ! this)\<lparr>elementValue :=
            fst (Selector_stringify (h ! l)) @ '' '' @ c @ '' '' @ fst (Selector_stringify (h ! r))\<rparr>])"
    by (rule Selector_combine_result)
  have RB: "this \<noteq> l \<and> this \<noteq> r \<longrightarrow>
          CssSelectorBuilder_combine l c r this g =
          (Inr this,
           (snd (CssSelectorBuilder_stringify_at r (snd (CssSelectorBuilder_stringify_at l g))))
             [this := (g ! this)\<lparr>selectors := selectors (g ! this)
                @ [fst (CssSelectorBuilder_stringify_at l g) @ '' '' @ c @ '' ''
                   @ fst (CssSelectorBuilder_stringify_at r
                       (snd (CssSelectorBuilder_stringify_at l g)))]\<rparr>])"
    using CssSelectorBuilder_combine_result [of this l r c g] by blast
  have E1: "Selector_render
         (Combine (Start (Element ''div'') [Id ''main'']) ''+'' (Start (Element ''span'') []) [])
       = Inr ''div#main + span''"
    by (simp add: Selector_defs store_defs)
  have E2: "CssSelectorBuilder_render
         (Combine (Start (Element ''div'') [Id ''main'']) ''+'' (Start (Element ''span'') []) [])
       = Inr ''div#main + span''"
    by (simp add: CssSelectorBuilder_defs store_defs)
  have E3: "Selector_render
         (Combine (Combine (Start (Element ''table'') []) ''~'' (Start (Element ''tr'') []) [])
            '' '' (Start (Element ''td'') []) [])
       = Inr ''table ~ tr   td''"
    by (simp add: Selector_defs store_defs)
  have E4: "CssSelectorBuilder_render
         (Combine (Combine (Start (Element ''table'') []) ''~'' (Start (Element ''tr'') []) [])
            '' '' (Start (Element ''td'') []) [])
       = Inr ''table ~ tr   td''"
    by (simp add: CssSelectorBuilder_defs store_defs)
  from A A' B RA RB E1 E2 E3 E4 show ?thesis by blast
qed

theorem C5_combine_joins_operands_witness:
  "(1::nat) < length [Selector_new\<lparr>elementValue := ''x'', classValues := [''.c''], order := 3\<rparr>,
        Selector_new\<lparr>elementValue := ''l'', order := 1\<rparr>,
        Selector_new\<lparr>idValue := ''#r'', order := 2\<rparr>]
   \<and> (2::nat) < length [CssSelectorBuilder_new\<lparr>selectors := [''x'', ''.c'']\<rparr>,
        CssSelectorBuilder_new\<lparr>selectors := [''l'']\<rparr>,
        CssSelectorBuilder_new\<lparr>selectors := [''#r'']\<rparr>]
   \<and> cssSelectorBuilder_combine 1 ''>'' 2
        [Selector_new\<lparr>elementValue := ''x'', classValues := [''.c''], order := 3\<rparr>,
         Selector_new\<lparr>elementValue := ''l'', order := 1\<rparr>,
         Selector_new\<lparr>idValue := ''#r'', order := 2\<rparr>]
      = (Inr 3,
         [Selector_new\<lparr>elementValue := ''x'', classValues := [''.c''], order := 3\<rparr>,
          Selector_new\<lparr>elementValue := ''l'', order := 1\<rparr>,
          Selector_new\<lparr>idValue := ''#r'', order := 2\<rparr>,
          Selector_new\<lparr>elementValue := ''l > #r''\<rparr>])
   \<and> cssSelectorBuilder2_combine 1 ''>'' 2
        [CssSelectorBuilder_new\<lparr>selectors := [''x'', ''.c'']\<rparr>,
         CssSelectorBuilder_new\<lparr>selectors := [''l'']\<rparr>,
         CssSelectorBuilder_new\<lparr>selectors := [''#r'']\<rparr>]
      = (Inr 3,
         [CssSelectorBuilder_new\<lparr>selectors := [''x'', ''.c'']\<rparr>,
          CssSelectorBuilder_new, CssSelectorBuilder_new,
          CssSelectorBuilder_new\<lparr>selectors := [''l > #r'']\<rparr>])
   \<and> Selector_combine 1 ''>'' 2 0
        [Selector_new\<lparr>elementValue := ''x'', classValues := [''.c''], order := 3\<rparr>,
         Selector_new\<lparr>elementValue := ''l'', order := 1\<rparr>,
         Selector_new\<lparr>idValue := ''#r'', order := 2\<rparr>]
      = (Inr 0,
         [Selector_new\<lparr>elementValue := ''l > #r'', classValues := [''.c''], order := 3\<rparr>,
          Selector_new\<lparr>elementValue := ''l'', order := 1\<rparr>,
          Selector_new\<lparr>idValue := ''#r'', order := 2\<rparr>])
   \<and> CssSelectorBuilder_combine 1 ''>'' 2 0
        [CssSelectorBuilder_new\<lparr>selectors := [''x'', ''.c'']\<rparr>,
         CssSelectorBuilder_new\<lparr>selectors := [''l'']\<rparr>,
         CssSelectorBuilder_new\<lparr>selectors := [''#r'']\<rparr>]
      = (Inr 0,
         [CssSelectorBuilder_new\<lparr>selectors := [''x'', ''.c'', ''l > #r'']\<rparr>,
          CssSelectorBuilder_new, CssSelectorBuilder_new])"
proof -
  let ?H = "[Selector_new\<lparr>elementValue := ''x'', classValues := [''.c''], order := 3\<rparr>,
        Selector_new\<lparr>elementValue := ''l'', order := 1\<rparr>,
        Selector_new\<lparr>idValue := ''#r'', order := 2\<rparr>]"
  let ?G = "[CssSelectorBuilder_new\<lparr>selectors := [''x'', ''.c'']\<rparr>,
        CssSelectorBuilder_new\<lparr>selectors := [''l'']\<rparr>,
        CssSelectorBuilder_new\<lparr>selectors := [''#r'']\<rparr>]"
  have h1: "(1::nat) < length ?H" and h2: "(2::nat) < length ?H"
    and g1: "(1::nat) < length ?G" and g2: "(2::nat) < length ?G"
    by simp_all
  note joined = C5_combine_joins_operands [OF h1 h2 g1 g2, of "''>''" 0]
  have s1: "cssSelectorBuilder_combine 1 ''>'' 2 ?H =
       (Inr (length ?H),
        ?H @ [Selector_new\<lparr>elementValue :=
          fst (Selector_stringify (?H ! 1)) @ '' '' @ ''>'' @ '' ''
            @ fst (Selector_stringify (?H ! 2))\<rparr>])"
    using joined by blast
  have s2: "cssSelectorBuilder2_combine 1 ''>'' 2 ?G =
       (Inr (length ?G),
        snd (CssSelectorBuilder_stringify_at 2 (snd (CssSelectorBuilder_stringify_at 1 ?G)))
        @ [CssSelectorBuilder_new\<lparr>selectors :=
             [fst (CssSelectorBuilder_stringify_at 1 ?G) @ '' '' @ ''>'' @ '' ''
              @ fst (CssSelectorBuilder_stringify_at 2
                  (snd (CssSelectorBuilder_stringify_at 1 ?G)))]\<rparr>])"
    using joined by blast
  have s3: "Selector_combine 1 ''>'' 2 0 ?H =
       (Inr 0,
        ?H[0 := (?H ! 0)\<lparr>elementValue :=
            fst (Selector_stringify (?H ! 1)) @ '' '' @ ''>'' @ '' ''
              @ fst (Selector_stringify (?H ! 2))\<rparr>])"
    using joined by blast
  have s4: "(0::nat) \<noteq> 1 \<and> (0::nat) \<noteq> 2 \<longrightarrow>
          CssSelectorBuilder_combine 1 ''>'' 2 0 ?G =
          (Inr 0,
           (snd (CssSelectorBuilder_stringify_at 2 (snd (CssSelectorBuilder_stringify_at 1 ?G))))
             [0 := (?G ! 0)\<lparr>selectors := selectors (?G ! 0)
                @ [fst (CssSelectorBuilder_stringify_at 1 ?G) @ '' '' @ ''>'' @ '' ''
                   @ fst (CssSelectorBuilder_stringify_at 2
                       (snd (CssSelectorBuilder_stringify_at 1 ?G)))]\<rparr>])"
    using joined by blast
  show ?thesis
    using h1 g2 s1 s2 s3 s4
    by (simp add: Selector_stringify_def Selector_new_def CssSelectorBuilder_new_def
        CssSelectorBuilder_stringify_at_def CssSelectorBuilder_stringify_def)
qed

text \<open>
  C6. A call that raises should leave the builder as it was. \<^verbatim>\<open>Selector.class\<close> pushes
  the fragment and only then calls \<^verbatim>\<open>validateOrder\<close>: after \<^verbatim>\<open>attr('a')\<close> the call
  \<^verbatim>\<open>class('b')\<close> throws the order error, yet \<^verbatim>\<open>classValues\<close> has grown from empty to
  one entry and \<^verbatim>\<open>stringify()\<close> has changed from \<^verbatim>\<open>[a]\<close> to \<^verbatim>\<open>.b[a]\<close>.
\<close>

theorem C6_failed_class_call_leaves_fragment:
  "fst (Selector_chain [Attr ''a''] Selector_new) = Inr ()
   \<and> classValues (snd (Selector_chain [Attr ''a''] Selector_new)) = []
   \<and> fst (Selector_class ''b'' (snd (Selector_chain [Attr ''a''] Selector_new)))
       = Inl (Error message_order)
   \<and> classValues (snd (Selector_class ''b'' (snd (Selector_chain [Attr ''a''] Selector_new))))
       = [''.b'']
   \<and> fst (Selector_stringify (snd (Selector_chain [Attr ''a''] Selector_new))) = ''[a]''
   \<and> fst (Selector_stringify
         (snd (Selector_class ''b'' (snd (Selector_chain [Attr ''a''] Selector_new))))) = ''.b[a]''"
  by (simp add: Selector_defs)

text \<open>
  C7. A fragment made by \<^verbatim>\<open>combine\<close> should never set off the duplicate or the order
  check of the builder that holds it. In the second document the builder returned by
  \<^verbatim>\<open>combine(id('a'), '+', element('b'))\<close> holds the single fragment \<^verbatim>\<open>#a + b\<close>;
  \<^verbatim>\<open>validateOrder\<close> takes it for an id because of its first character, and a following
  \<^verbatim>\<open>class('x')\<close> throws the order error. In the first document \<^verbatim>\<open>combine\<close> stores the
  joined text in \<^verbatim>\<open>elementValue\<close>, and a following \<^verbatim>\<open>element('c')\<close> throws the duplicate
  error although \<^verbatim>\<open>element\<close> was never called on that builder.
\<close>

theorem C7_combined_fragment_trips_checks:
  "map selectors (snd (CssSelectorBuilder_eval
       (Combine (Start (Id ''a'') []) ''+'' (Start (Element ''b'') []) []) []))
     = [[], [], [''#a + b'']]
   \<and> CssSelectorBuilder_render
       (Combine (Start (Id ''a'') []) ''+'' (Start (Element ''b'') []) [Class ''x''])
     = Inl (Error message_order)
   \<and> Selector_render
       (Combine (Start (Element ''a'') []) ''+'' (Start (Element ''b'') []) [Element ''c''])
     = Inl (Error message_duplicate_then)"
  by (simp add: CssSelectorBuilder_defs Selector_defs store_defs)

text \<open>
  C8. Every facade entry point allocates a new builder and runs the instance method on
  it: the store grows by exactly that object and the result is its address. Evaluating
  a whole selector expression (facade calls, chained calls, nested combines) in a store
  \<open>h\<close> gives what it gives in the empty store, placed behind \<open>h\<close>: no builder that
  existed before is changed and its \<^verbatim>\<open>stringify()\<close> result stays the same. A method
  called on one builder changes no other builder; the facade's \<^verbatim>\<open>combine\<close> changes, of
  the existing builders, at most its two operands.
\<close>

theorem C8_facade_builders_are_separate:
  assumes "b < length h" and "b < length g" and "a \<noteq> b"
  shows "cssSelectorBuilder_call c h =
       ((case fst (Selector_call c Selector_new) of Inl x \<Rightarrow> Inl x | Inr u \<Rightarrow> Inr (length h)),
        h @ [snd (Selector_call c Selector_new)])
     \<and> Selector_eval e h =
         (relocate (length h) (fst (Selector_eval e [])), h @ snd (Selector_eval e []))
     \<and> snd (Selector_eval e h) ! b = h ! b
     \<and> fst (Selector_stringify_at b (snd (Selector_eval e h))) = fst (Selector_stringify_at b h)
     \<and> cssSelectorBuilder_combine l k r h = Selector_combine l k r (length h) (h @ [Selector_new])
     \<and> snd (cssSelectorBuilder_combine l k r h) ! b = h ! b
     \<and> snd (invoke (Selector_call c) a h) ! b = h ! b
     \<and> cssSelectorBuilder2_call c g =
       ((case fst (CssSelectorBuilder_call c CssSelectorBuilder_new) of
           Inl x \<Rightarrow> Inl x | Inr u \<Rightarrow> Inr (length g)),
        g @ [snd (CssSelectorBuilder_call c CssSelectorBuilder_new)])
     \<and> CssSelectorBuilder_eval e g =
         (relocate (length g) (fst (CssSelectorBuilder_eval e [])),
          g @ snd (CssSelectorBuilder_eval e []))
     \<and> snd (CssSelectorBuilder_eval e g) ! b = g ! b
     \<and> fst (CssSelectorBuilder_stringify_at b (snd (CssSelectorBuilder_eval e g)))
         = fst (CssSelectorBuilder_stringify_at b g)
     \<and> cssSelectorBuilder2_combine l k r g =
         CssSelectorBuilder_combine l k r (length g) (g @ [CssSelectorBuilder_new])
     \<and> (b \<noteq> l \<and> b \<noteq> r \<longrightarrow> snd (cssSelectorBuilder2_combine l k r g) ! b = g ! b)
     \<and> snd (invoke (CssSelectorBuilder_call c) a g) ! b = g ! b
     \<and> snd (CssSelectorBuilder_stringify_at a g) ! b = g ! b"
proof -
  have A1: "cssSelectorBuilder_call c h =
       ((case fst (Selector_call c Selector_new) of Inl x \<Rightarrow> Inl x | Inr u \<Rightarrow> Inr (length h)),
        h @ [snd (Selector_call c Selector_new)])"
    by (simp add: cssSelectorBuilder_call_invoke invoke_new)
  have A2: "Selector_eval e h =
         (relocate (length h) (fst (Selector_eval e [])), h @ snd (Selector_eval e []))"
    by (rule Selector_eval_append)
  have A3: "snd (Selector_eval e h) ! b = h ! b"
    using assms(1) by (subst A2) (simp add: nth_append)
  have A4: "fst (Selector_stringify_at b (snd (Selector_eval e h))) = fst (Selector_stringify_at b h)"
    using A3 by (simp add: Selector_stringify_at_same)
  have A0: "cssSelectorBuilder_combine l k r h = Selector_combine l k r (length h) (h @ [Selector_new])"
    by (simp add: cssSelectorBuilder_combine_def)
  have B0: "cssSelectorBuilder2_combine l k r g =
         CssSelectorBuilder_combine l k r (length g) (g @ [CssSelectorBuilder_new])"
    by (simp add: cssSelectorBuilder2_combine_def)
  have A5: "snd (cssSelectorBuilder_combine l k r h) ! b = h ! b"
    using assms(1) by (rule cssSelectorBuilder_combine_other)
  have A6: "snd (invoke (Selector_call c) a h) ! b = h ! b"
    using assms(3) by (simp add: invoke_other)
  have B1: "cssSelectorBuilder2_call c g =
       ((case fst (CssSelectorBuilder_call c CssSelectorBuilder_new) of
           Inl x \<Rightarrow> Inl x | Inr u \<Rightarrow> Inr (length g)),
        g @ [snd (CssSelectorBuilder_call c CssSelectorBuilder_new)])"
    by (simp add: cssSelectorBuilder2_call_invoke invoke_new)
  have B2: "CssSelectorBuilder_eval e g =
         (relocate (length g) (fst (CssSelectorBuilder_eval e [])),
          g @ snd (CssSelectorBuilder_eval e []))"
    by (rule CssSelectorBuilder_eval_append)
  have B3: "snd (CssSelectorBuilder_eval e g) ! b = g ! b"
    using assms(2) by (subst B2) (simp add: nth_append)
  have B4: "fst (CssSelectorBuilder_stringify_at b (snd (CssSelectorBuilder_eval e g)))
         = fst (CssSelectorBuilder_stringify_at b g)"
    using B3 by (simp add: CssSelectorBuilder_stringify_at_def CssSelectorBuilder_stringify_def)
  have B5: "b \<noteq> l \<and> b \<noteq> r \<longrightarrow> snd (cssSelectorBuilder2_combine l k r g) ! b = g ! b"
    using assms(2) by (simp add: cssSelectorBuilder2_combine_other)
  have B6: "snd (invoke (CssSelectorBuilder_call c) a g) ! b = g ! b"
    using assms(3) by (simp add: invoke_other)
  have B7: "snd (CssSelectorBuilder_stringify_at a g) ! b = g ! b"
    using assms(3) by (simp add: CssSelectorBuilder_stringify_at_other)
  from A0 A1 A2 A3 A4 A5 A6 B0 B1 B2 B3 B4 B5 B6 B7 show ?thesis by blast
qed

theorem C8_facade_builders_are_separate_witness:
  "(0::nat) < length [Selector_new\<lparr>elementValue := ''a'', order := 1\<rparr>, Selector_new]
   \<and> (0::nat) < length [CssSelectorBuilder_new\<lparr>selectors := [''a'']\<rparr>,
          CssSelectorBuilder_new\<lparr>selectors := [''b'']\<rparr>,
          CssSelectorBuilder_new\<lparr>selectors := [''c'']\<rparr>]
   \<and> (1::nat) \<noteq> 0
   \<and> snd (Selector_eval (Start (Element ''x'') [Class ''y''])
         [Selector_new\<lparr>elementValue := ''a'', order := 1\<rparr>, Selector_new]) ! 0
       = Selector_new\<lparr>elementValue := ''a'', order := 1\<rparr>
   \<and> snd (CssSelectorBuilder_eval (Start (Element ''x'') [Class ''y''])
         [CssSelectorBuilder_new\<lparr>selectors := [''a'']\<rparr>,
          CssSelectorBuilder_new\<lparr>selectors := [''b'']\<rparr>,
          CssSelectorBuilder_new\<lparr>selectors := [''c'']\<rparr>]) ! 0
       = CssSelectorBuilder_new\<lparr>selectors := [''a'']\<rparr>
   \<and> snd (cssSelectorBuilder2_combine 1 ''+'' 2
         [CssSelectorBuilder_new\<lparr>selectors := [''a'']\<rparr>,
          CssSelectorBuilder_new\<lparr>selectors := [''b'']\<rparr>,
          CssSelectorBuilder_new\<lparr>selectors := [''c'']\<rparr>]) ! 0
       = CssSelectorBuilder_new\<lparr>selectors := [''a'']\<rparr>
   \<and> snd (invoke (Selector_call (Class ''z'')) 1
         [Selector_new\<lparr>elementValue := ''a'', order := 1\<rparr>, Selector_new]) ! 0
       = Selector_new\<lparr>elementValue := ''a'', order := 1\<rparr>"
proof -
  let ?H = "[Selector_new\<lparr>elementValue := ''a'', order := 1\<rparr>, Selector_new]"
  let ?G = "[CssSelectorBuilder_new\<lparr>selectors := [''a'']\<rparr>,
          CssSelectorBuilder_new\<lparr>selectors := [''b'']\<rparr>,
          CssSelectorBuilder_new\<lparr>selectors := [''c'']\<rparr>]"
  let ?e = "Start (Element ''x'') [Class ''y'']"
  have h1: "(0::nat) < length ?H"
    by simp
  have h2: "(0::nat) < length ?G"
    by simp
  have h3: "(1::nat) \<noteq> 0"
    by simp
  note sep = C8_facade_builders_are_separate [OF h1 h2 h3, of "Class ''z''" ?e 1 "''+''" 2]
  have s1: "snd (Selector_eval ?e ?H) ! 0 = ?H ! 0"
    using sep by blast
  have s2: "snd (CssSelectorBuilder_eval ?e ?G) ! 0 = ?G ! 0"
    using sep by blast
  have s3: "(0::nat) \<noteq> 1 \<and> (0::nat) \<noteq> 2 \<longrightarrow>
      snd (cssSelectorBuilder2_combine 1 ''+'' 2 ?G) ! 0 = ?G ! 0"
    using sep by blast
  have s4: "snd (invoke (Selector_call (Class ''z'')) 1 ?H) ! 0 = ?H ! 0"
    using sep by blast
  show ?thesis
    using h1 h2 h3 s1 s2 s3 s4 by simp
qed

text \<open>
  C9, as the claim states it: a fragment appended with the empty-string name does not
  count as present for the duplicate checks of element, id and pseudoElement. For
  \<^verbatim>\<open>id\<close> and \<^verbatim>\<open>pseudoElement\<close> it does count: \<^verbatim>\<open>id('')\<close> stores \<^verbatim>\<open>#\<close> and
  \<^verbatim>\<open>pseudoElement('')\<close> stores \<^verbatim>\<open>::\<close>, both truthy, and the second call raises.
\<close>

theorem C9_second_id_after_empty_id_raises:
  "fst (Selector_id '''' Selector_new) = Inr ()
   \<and> fst (Selector_id ''x'' (snd (Selector_id '''' Selector_new)))
       = Inl (Error message_duplicate_then)
   \<and> fst (Selector_pseudoElement '''' Selector_new) = Inr ()
   \<and> fst (Selector_pseudoElement ''x'' (snd (Selector_pseudoElement '''' Selector_new)))
       = Inl (Error message_duplicate_once)"
  by (simp add: Selector_defs)

text \<open>
  C9, amended. The duplicate checks of \<^verbatim>\<open>Selector.element\<close>, \<^verbatim>\<open>id\<close> and
  \<^verbatim>\<open>pseudoElement\<close> test the truthiness of the stored fragment: whenever the stored
  fragment is non-empty the call throws and leaves the state as it is. Only \<^verbatim>\<open>element\<close>
  stores the bare name, so only there an empty name leaves nothing behind:
  \<^verbatim>\<open>element('')\<close> followed by \<^verbatim>\<open>element(v)\<close> on a new builder does not raise. After an
  \<^verbatim>\<open>id\<close> or \<^verbatim>\<open>pseudoElement\<close> call that returned normally, whatever its name, the next
  call of the same method raises.
\<close>

theorem C9_only_empty_element_is_absent:
  "fst (Selector_chain [Element '''', Element v] Selector_new) = Inr ()
   \<and> (truthy (elementValue s) \<longrightarrow>
        Selector_element v s = (Inl (Error message_duplicate_then), s))
   \<and> (truthy (idValue s) \<longrightarrow> Selector_id v s = (Inl (Error message_duplicate_then), s))
   \<and> (truthy (pseudoElementValue s) \<longrightarrow>
        Selector_pseudoElement v s = (Inl (Error message_duplicate_once), s))
   \<and> (fst (Selector_id w s) = Inr () \<longrightarrow>
        fst (Selector_id v (snd (Selector_id w s))) = Inl (Error message_duplicate_then))
   \<and> (fst (Selector_pseudoElement w s) = Inr () \<longrightarrow>
        fst (Selector_pseudoElement v (snd (Selector_pseudoElement w s)))
          = Inl (Error message_duplicate_once))"
  by (simp add: Selector_defs)

theorem C9_only_empty_element_is_absent_witness:
  "fst (Selector_chain [Element '''', Element ''div''] Selector_new) = Inr ()
   \<and> truthy (elementValue (snd (Selector_element ''p'' Selector_new)))
   \<and> Selector_element ''div'' (snd (Selector_element ''p'' Selector_new))
       = (Inl (Error message_duplicate_then), snd (Selector_element ''p'' Selector_new))
   \<and> fst (Selector_id '''' Selector_new) = Inr ()
   \<and> fst (Selector_id ''x'' (snd (Selector_id '''' Selector_new)))
       = Inl (Error message_duplicate_then)
   \<and> fst (Selector_pseudoElement '''' Selector_new) = Inr ()
   \<and> fst (Selector_pseudoElement ''x'' (snd (Selector_pseudoElement '''' Selector_new)))
       = Inl (Error message_duplicate_once)"
  using C9_only_empty_element_is_absent
    [of "''div''" "snd (Selector_element ''p'' Selector_new)" "''''"]
    C9_only_empty_element_is_absent [of "''x''" Selector_new "''''"]
  by (simp add: Selector_defs)

text \<open>
  C10. In \<^verbatim>\<open>Selector\<close>, \<^verbatim>\<open>attr\<close> overwrites the stored attribute fragment while
  \<^verbatim>\<open>class\<close> and \<^verbatim>\<open>pseudoClass\<close> accumulate: after any chain of calls that returned
  normally from a new builder, \<^verbatim>\<open>stringify()\<close> is the element and id fragments, then the
  fragment of every \<^verbatim>\<open>class\<close> call in call order, then the fragment of the last \<^verbatim>\<open>attr\<close>
  call only (nothing when there was none), then the fragment of every \<^verbatim>\<open>pseudoClass\<close>
  call in call order, then the pseudo-element fragment. The three fields behave so on
  every builder state and for every call sequence, also when some of the calls throw and
  the client goes on: \<^verbatim>\<open>classValues\<close> and \<^verbatim>\<open>pseudoClassValues\<close> grow by one entry per
  call, \<^verbatim>\<open>attrValue\<close> is the fragment of the last \<^verbatim>\<open>attr\<close> call.
\<close>

theorem C10_attr_keeps_last_only:
  assumes "Selector_chain cs Selector_new = (Inr (), s)"
  shows "fst (Selector_stringify s) =
       concat (map fragment (of_rank 1 cs)) @ concat (map fragment (of_rank 2 cs))
       @ concat (map fragment (of_rank 3 cs)) @ last_fragment (of_rank 4 cs)
       @ concat (map fragment (of_rank 5 cs)) @ concat (map fragment (of_rank 6 cs))
     \<and> classValues (Selector_attempts ds t) = classValues t @ map fragment (of_rank 3 ds)
     \<and> attrValue (Selector_attempts ds t) =
         (if of_rank 4 ds = [] then attrValue t else last_fragment (of_rank 4 ds))
     \<and> pseudoClassValues (Selector_attempts ds t) =
         pseudoClassValues t @ map fragment (of_rank 5 ds)"
  using Selector_chain_fields [OF assms] Selector_attempts_repeatable_fields [of ds t]
  by (simp add: Selector_stringify_def Selector_new_def last_fragment_def)

theorem C10_attr_keeps_last_only_witness:
  "Selector_chain
       [Element ''a'', Class ''x'', Class ''y'', Attr ''p'', Attr ''q'', PseudoClass ''h'']
       Selector_new
     = (Inr (), \<lparr>elementValue = ''a'', idValue = [], classValues = [''.x'', ''.y''],
          attrValue = ''[q]'', pseudoClassValues = ['':h''], pseudoElementValue = [],
          order = 5\<rparr>)
   \<and> fst (Selector_stringify \<lparr>elementValue = ''a'', idValue = [],
          classValues = [''.x'', ''.y''], attrValue = ''[q]'', pseudoClassValues = ['':h''],
          pseudoElementValue = [], order = 5\<rparr>) = ''a.x.y[q]:h''"
proof -
  have h: "Selector_chain
       [Element ''a'', Class ''x'', Class ''y'', Attr ''p'', Attr ''q'', PseudoClass ''h'']
       Selector_new
     = (Inr (), \<lparr>elementValue = ''a'', idValue = [], classValues = [''.x'', ''.y''],
          attrValue = ''[q]'', pseudoClassValues = ['':h''], pseudoElementValue = [],
          order = 5\<rparr>)"
    by (simp add: Selector_defs)
  show ?thesis
    using h C10_attr_keeps_last_only [OF h]
    by (simp add: of_rank_def last_fragment_def)
qed

end
